theory Spec2Isabelle
  imports Complex_Main
begin

section \<open>Single-precision arithmetic\<close>

text \<open>
  The program (FindTriangles.cpp) stores every coordinate in the C++ type \<open>float\<close> and
  computes every intermediate value in \<open>float\<close>. A \<open>float\<close> is modelled as an IEEE 754
  binary32 value: a real number (of which the program only ever produces the
  representable ones), an infinity, or NaN. Every operation takes the exact result and
  rounds it to the nearest representable value, ties to the even significand, with
  gradual underflow and overflow to infinity. Positive and negative zero are one value:
  they compare equal, and the program never divides by a zero (a divisor has passed the
  tolerance test), so the sign of a zero is not observable.
\<close>

datatype float = Finite real | PlusInf | MinusInf | NaN

text \<open>The nearest integer, ties to the even one.\<close>

definition round_even :: "real \<Rightarrow> int" where
  "round_even q =
     (let f = \<lfloor>q\<rfloor>; r = q - of_int f
      in if r < 1 / 2 then f else if 1 / 2 < r then f + 1 else if even f then f else f + 1)"

text \<open>
  The binary exponent of a positive real below \<open>2 ^ 128\<close>: the \<open>e\<close> with
  \<open>2 ^ e \<le> a < 2 ^ (e + 1)\<close>, and \<open>- 126\<close> for the subnormal range.
\<close>

primrec exponent_ge :: "nat \<Rightarrow> real \<Rightarrow> int" where
  "exponent_ge 0 a = 0"
| "exponent_ge (Suc n) a = (if 2 \<le> a then exponent_ge n (a / 2) + 1 else 0)"

primrec exponent_lt :: "nat \<Rightarrow> real \<Rightarrow> int" where
  "exponent_lt 0 a = 0"
| "exponent_lt (Suc n) a = (if a < 1 then exponent_lt n (a * 2) - 1 else 0)"

definition exponent32 :: "real \<Rightarrow> int" where
  "exponent32 a = (if 1 \<le> a then exponent_ge 127 a else exponent_lt 126 a)"

text \<open>
  Rounding a positive real: 24 significant bits, so one unit in the last place is
  \<open>2 ^ (e - 23)\<close>; from \<open>2 ^ 128 - 2 ^ 103\<close> on (half a unit above the largest finite
  value) the result is infinity.
\<close>

definition round_pos :: "real \<Rightarrow> float" where
  "round_pos a =
     (if 2 ^ 128 - 2 ^ 103 \<le> a then PlusInf
      else let ulp = 2 powi (exponent32 a - 23)
           in Finite (of_int (round_even (a / ulp)) * ulp))"

definition round32 :: "real \<Rightarrow> float" where
  "round32 r =
     (if r = 0 then Finite 0
      else if 0 < r then round_pos r
      else (case round_pos (- r) of Finite v \<Rightarrow> Finite (- v) | _ \<Rightarrow> MinusInf))"

text \<open>The sign of a value, for the products with an infinity.\<close>

fun sign_float :: "float \<Rightarrow> int" where
  "sign_float (Finite a) = (if a < 0 then - 1 else if a = 0 then 0 else 1)"
| "sign_float PlusInf = 1"
| "sign_float MinusInf = - 1"
| "sign_float NaN = 0"

definition signed_inf :: "int \<Rightarrow> float" where
  "signed_inf s = (if s = 0 then NaN else if 0 < s then PlusInf else MinusInf)"

text \<open>
  The operators of the source on \<open>float\<close>. A NaN operand gives NaN and every comparison
  with NaN is false. A quotient by zero is not reached by the program; it is NaN here.
\<close>

instantiation float :: "{zero, one, uminus, plus, minus, times, inverse, abs, ord}"
begin

definition zero_float :: float where
  "zero_float = Finite 0"

definition one_float :: float where
  "one_float = Finite 1"

fun uminus_float :: "float \<Rightarrow> float" where
  "uminus_float (Finite a) = Finite (- a)"
| "uminus_float PlusInf = MinusInf"
| "uminus_float MinusInf = PlusInf"
| "uminus_float NaN = NaN"

fun plus_float :: "float \<Rightarrow> float \<Rightarrow> float" where
  "plus_float (Finite a) (Finite b) = round32 (a + b)"
| "plus_float NaN v = NaN"
| "plus_float v NaN = NaN"
| "plus_float PlusInf MinusInf = NaN"
| "plus_float MinusInf PlusInf = NaN"
| "plus_float PlusInf v = PlusInf"
| "plus_float MinusInf v = MinusInf"
| "plus_float v PlusInf = PlusInf"
| "plus_float v MinusInf = MinusInf"

definition minus_float :: "float \<Rightarrow> float \<Rightarrow> float" where
  "minus_float a b = a + - b"

fun times_float :: "float \<Rightarrow> float \<Rightarrow> float" where
  "times_float (Finite a) (Finite b) = round32 (a * b)"
| "times_float NaN v = NaN"
| "times_float v NaN = NaN"
| "times_float a b = signed_inf (sign_float a * sign_float b)"

fun divide_float :: "float \<Rightarrow> float \<Rightarrow> float" where
  "divide_float (Finite a) (Finite b) = (if b = 0 then NaN else round32 (a / b))"
| "divide_float NaN v = NaN"
| "divide_float v NaN = NaN"
| "divide_float (Finite a) v = Finite 0"
| "divide_float PlusInf (Finite b) = (if b < 0 then MinusInf else if b = 0 then NaN else PlusInf)"
| "divide_float MinusInf (Finite b) = (if b < 0 then PlusInf else if b = 0 then NaN else MinusInf)"
| "divide_float a b = NaN"

definition inverse_float :: "float \<Rightarrow> float" where
  "inverse_float a = divide (Finite 1) a"

fun abs_float :: "float \<Rightarrow> float" where
  "abs_float (Finite a) = Finite \<bar>a\<bar>"
| "abs_float PlusInf = PlusInf"
| "abs_float MinusInf = PlusInf"
| "abs_float NaN = NaN"

fun less_float :: "float \<Rightarrow> float \<Rightarrow> bool" where
  "less_float (Finite a) (Finite b) \<longleftrightarrow> a < b"
| "less_float NaN v \<longleftrightarrow> False"
| "less_float v NaN \<longleftrightarrow> False"
| "less_float v MinusInf \<longleftrightarrow> False"
| "less_float PlusInf v \<longleftrightarrow> False"
| "less_float MinusInf v \<longleftrightarrow> True"
| "less_float v PlusInf \<longleftrightarrow> True"

definition less_eq_float :: "float \<Rightarrow> float \<Rightarrow> bool" where
  "less_eq_float a b \<longleftrightarrow> a < b \<or> (a = b \<and> a \<noteq> NaN)"

instance ..

end

text \<open>
  The real value of a finite \<open>float\<close>, for statements in exact arithmetic about finite
  coordinates.
\<close>

fun is_finite :: "float \<Rightarrow> bool" where
  "is_finite (Finite a) = True"
| "is_finite v = False"

fun valof :: "float \<Rightarrow> real" where
  "valof (Finite a) = a"
| "valof v = 0"

section \<open>Geometry primitives\<close>

text \<open>
  The tolerance is a \<open>double\<close>: the value nearest to \<open>0.00001\<close>, which is
  \<open>5902958103587057 / 2 ^ 69\<close>, a little above \<open>1e-5\<close>. A \<open>float\<close> compared with it is
  converted to \<open>double\<close> without rounding, so the comparison is the exact one.

  The C++ type \<open>int\<close> is modelled by the integers: the only values cast to \<open>int\<close> are
  container sizes, which are taken to be representable in \<open>int\<close>, and a loop counter never
  passes the size it is compared with. A counter starts at zero and is only incremented,
  so it is a natural number; the loop tests are evaluated over the integers, as the casts
  in the source make them (\<open>size - 1\<close> and \<open>size - 2\<close> are negative for short containers).
\<close>

definition compare_tolerance :: float where
  "compare_tolerance = Finite (5902958103587057 / 2 ^ 69)"

record point =
  x :: float
  y :: float

text \<open>\<open>point::operator==\<close>: both coordinate differences are strictly below the tolerance.\<close>

definition point_eq :: "point \<Rightarrow> point \<Rightarrow> bool" where
  "point_eq this other \<longleftrightarrow>
     \<bar>x this - x other\<bar> < compare_tolerance \<and> \<bar>y this - y other\<bar> < compare_tolerance"

record line_segment =
  p1 :: point
  p2 :: point

text \<open>The constructor of \<open>line_segment\<close> from four coordinates.\<close>

definition line_segment4 :: "float \<Rightarrow> float \<Rightarrow> float \<Rightarrow> float \<Rightarrow> line_segment" where
  "line_segment4 a b c d = \<lparr>line_segment.p1 = \<lparr>x = a, y = b\<rparr>, p2 = \<lparr>x = c, y = d\<rparr>\<rparr>"

record triangle =
  p1 :: point
  p2 :: point
  p3 :: point

text \<open>
  \<open>find_point\<close> is a linear \<open>std::find\<close>: it stops at the first stored element \<open>e\<close> with
  \<open>e == pt\<close>.
\<close>

primrec find_point :: "point list \<Rightarrow> point \<Rightarrow> bool" where
  "find_point [] pt = False"
| "find_point (e # points) pt = (if point_eq e pt then True else find_point points pt)"

section \<open>Intersection of two segments\<close>

text \<open>
  \<open>calc_intersection\<close> writes its result through the reference parameter \<open>pt\<close> and
  returns a flag. The function here takes the caller's value of \<open>pt\<close> and returns the
  flag together with the value \<open>pt\<close> holds afterwards. The object \<open>pt\<close> refers to is not
  one of \<open>A\<close>, \<open>B\<close>, \<open>C\<close>, \<open>D\<close>: in the one call of the program it is a fresh local
  variable and the four points are elements of the constant vector of segments.
\<close>

definition calc_intersection ::
  "point \<Rightarrow> point \<Rightarrow> point \<Rightarrow> point \<Rightarrow> point \<Rightarrow> bool \<times> point" where
  "calc_intersection A B C D pt =
    (let pt = \<lparr>x = 0, y = 0\<rparr>;
         x1 = x A; y1 = y A;
         x2 = x B; y2 = y B;
         x3 = x C; y3 = y C;
         x4 = x D; y4 = y D;
         x1_x2 = x1 - x2;
         x1_x3 = x1 - x3;
         x2_x1 = x2 - x1;
         x3_x4 = x3 - x4;
         y1_y2 = y1 - y2;
         y1_y3 = y1 - y3;
         y2_y1 = y2 - y1;
         y3_y4 = y3 - y4;
         denominator = x1_x2 * y3_y4 - y1_y2 * x3_x4
     in if \<bar>denominator\<bar> < compare_tolerance then (False, pt)
        else
          let t = (x1_x3 * y3_y4 - y1_y3 * x3_x4) / denominator
          in if t < 0 \<or> t > 1 then (False, pt)
             else
               let u = (x1_x3 * y1_y2 - y1_y3 * x1_x2) / denominator
               in if u < 0 \<or> u > 1 then (False, pt)
                  else (True, \<lparr>x = x1 + t * x2_x1, y = y1 + t * y2_y1\<rparr>))"

text \<open>The overload on two line segments.\<close>

definition calc_intersection_ls :: "line_segment \<Rightarrow> line_segment \<Rightarrow> point \<Rightarrow> bool \<times> point" where
  "calc_intersection_ls ls1 ls2 pt =
     calc_intersection (line_segment.p1 ls1) (line_segment.p2 ls1)
       (line_segment.p1 ls2) (line_segment.p2 ls2) pt"

section \<open>Intersection aggregator\<close>

text \<open>
  Lines 164 to 168 of the source, once for each of the two segments of a pair:
  \<open>if (!find_point(intersects[i], pt)) intersects[i].push_back(pt)\<close>. The vector
  \<open>intersects\<close> is a parameter of \<open>calc_intersections\<close> and \<open>operator[]\<close> does not check
  its index: an index past the end is undefined behaviour, the value \<open>None\<close> here.
\<close>

definition add_intersect :: "point list list \<Rightarrow> nat \<Rightarrow> point \<Rightarrow> point list list option" where
  "add_intersect intersects i pt =
     (if i < length intersects then
        Some (if \<not> find_point (intersects ! i) pt
              then intersects[i := intersects ! i @ [pt]]
              else intersects)
      else None)"

text \<open>
  The inner loop of \<open>calc_intersections\<close>, over \<open>j\<close>. The loop test keeps \<open>j\<close> inside
  \<open>segments\<close>; the outer loop calls it with \<open>i\<close> inside \<open>segments\<close>.
\<close>

function calc_intersections_j ::
  "line_segment list \<Rightarrow> nat \<Rightarrow> nat \<Rightarrow> point list list \<Rightarrow> point list list option" where
  "calc_intersections_j segments i j intersects =
     (if int j < int (length segments) then
        (let r = calc_intersection_ls (segments ! i) (segments ! j) \<lparr>x = 0, y = 0\<rparr>;
             intersect_pt = snd r
         in if fst r then
              (case add_intersect intersects i intersect_pt of
                 None \<Rightarrow> None
               | Some intersects1 \<Rightarrow>
                   (case add_intersect intersects1 j intersect_pt of
                      None \<Rightarrow> None
                    | Some intersects2 \<Rightarrow> calc_intersections_j segments i (j + 1) intersects2))
            else calc_intersections_j segments i (j + 1) intersects)
      else Some intersects)"
  by pat_completeness auto
termination
  by (relation "measure (\<lambda>(segments, i, j, intersects). length segments - j)") auto

text \<open>The outer loop, over \<open>i\<close>.\<close>

function calc_intersections_i ::
  "line_segment list \<Rightarrow> nat \<Rightarrow> point list list \<Rightarrow> point list list option" where
  "calc_intersections_i segments i intersects =
     (if int i < int (length segments) - 1 then
        (case calc_intersections_j segments i (i + 1) intersects of
           None \<Rightarrow> None
         | Some intersects' \<Rightarrow> calc_intersections_i segments (i + 1) intersects')
      else Some intersects)"
  by pat_completeness auto
termination
  by (relation "measure (\<lambda>(segments, i, intersects). length segments - i)") auto

declare calc_intersections_j.simps [simp del] calc_intersections_i.simps [simp del]

definition calc_intersections ::
  "line_segment list \<Rightarrow> point list list \<Rightarrow> point list list option" where
  "calc_intersections segments intersects = calc_intersections_i segments 0 intersects"

section \<open>Triangle enumerator\<close>

text \<open>
  \<open>calc_triangles\<close> on the per-segment point vectors is six nested loops. Each loop is
  one function here, innermost first; \<open>triangles\<close> is the vector the triangles are
  appended to. Every index is below \<open>num_line_segments\<close>, the size of \<open>intersects\<close>.
\<close>

primrec last_point_loop ::
  "point list list \<Rightarrow> nat \<Rightarrow> point \<Rightarrow> point \<Rightarrow> point list \<Rightarrow> triangle list \<Rightarrow> triangle list" where
  "last_point_loop intersects segment_one_index start_point middle_point [] triangles = triangles"
| "last_point_loop intersects segment_one_index start_point middle_point (last_point # rest) triangles =
     (if point_eq last_point middle_point \<or> \<not> find_point (intersects ! segment_one_index) last_point
      then last_point_loop intersects segment_one_index start_point middle_point rest triangles
      else last_point_loop intersects segment_one_index start_point middle_point rest
             (triangles @ [\<lparr>p1 = start_point, p2 = middle_point, p3 = last_point\<rparr>]))"

function segment_three_loop ::
  "point list list \<Rightarrow> int \<Rightarrow> nat \<Rightarrow> point \<Rightarrow> point \<Rightarrow> nat \<Rightarrow> triangle list \<Rightarrow> triangle list" where
  "segment_three_loop intersects num_line_segments segment_one_index start_point middle_point
       segment_three_index triangles =
     (if int segment_three_index < num_line_segments then
        segment_three_loop intersects num_line_segments segment_one_index start_point middle_point
          (segment_three_index + 1)
          (if \<not> find_point (intersects ! segment_three_index) middle_point then triangles
           else last_point_loop intersects segment_one_index start_point middle_point
                  (intersects ! segment_three_index) triangles)
      else triangles)"
  by pat_completeness auto
termination
  by (relation "measure (\<lambda>(intersects, n, i, sp, mp, k, triangles). nat (n - int k))") auto

primrec middle_point_loop ::
  "point list list \<Rightarrow> int \<Rightarrow> nat \<Rightarrow> point \<Rightarrow> nat \<Rightarrow> point list \<Rightarrow> triangle list \<Rightarrow> triangle list" where
  "middle_point_loop intersects num_line_segments segment_one_index start_point
       segment_two_index [] triangles = triangles"
| "middle_point_loop intersects num_line_segments segment_one_index start_point
       segment_two_index (middle_point # rest) triangles =
     (if point_eq middle_point start_point
      then middle_point_loop intersects num_line_segments segment_one_index start_point
             segment_two_index rest triangles
      else middle_point_loop intersects num_line_segments segment_one_index start_point
             segment_two_index rest
             (segment_three_loop intersects num_line_segments segment_one_index start_point
                middle_point (segment_two_index + 1) triangles))"

function segment_two_loop ::
  "point list list \<Rightarrow> int \<Rightarrow> nat \<Rightarrow> point \<Rightarrow> nat \<Rightarrow> triangle list \<Rightarrow> triangle list" where
  "segment_two_loop intersects num_line_segments segment_one_index start_point
       segment_two_index triangles =
     (if int segment_two_index < num_line_segments - 1 then
        segment_two_loop intersects num_line_segments segment_one_index start_point
          (segment_two_index + 1)
          (if \<not> find_point (intersects ! segment_two_index) start_point then triangles
           else middle_point_loop intersects num_line_segments segment_one_index start_point
                  segment_two_index (intersects ! segment_two_index) triangles)
      else triangles)"
  by pat_completeness auto
termination
  by (relation "measure (\<lambda>(intersects, n, i, sp, j, triangles). nat (n - int j))") auto

primrec start_point_loop ::
  "point list list \<Rightarrow> int \<Rightarrow> nat \<Rightarrow> point list \<Rightarrow> triangle list \<Rightarrow> triangle list" where
  "start_point_loop intersects num_line_segments segment_one_index [] triangles = triangles"
| "start_point_loop intersects num_line_segments segment_one_index (start_point # rest) triangles =
     start_point_loop intersects num_line_segments segment_one_index rest
       (segment_two_loop intersects num_line_segments segment_one_index start_point
          (segment_one_index + 1) triangles)"

function segment_one_loop ::
  "point list list \<Rightarrow> int \<Rightarrow> nat \<Rightarrow> triangle list \<Rightarrow> triangle list" where
  "segment_one_loop intersects num_line_segments segment_one_index triangles =
     (if int segment_one_index < num_line_segments - 2 then
        segment_one_loop intersects num_line_segments (segment_one_index + 1)
          (start_point_loop intersects num_line_segments segment_one_index
             (intersects ! segment_one_index) triangles)
      else triangles)"
  by pat_completeness auto
termination
  by (relation "measure (\<lambda>(intersects, n, i, triangles). nat (n - int i))") auto

declare segment_three_loop.simps [simp del] segment_two_loop.simps [simp del]
  segment_one_loop.simps [simp del]

text \<open>\<open>calc_triangles(vector<vector<point>>&, vector<triangle>&)\<close>.\<close>

definition calc_triangles_intersects :: "point list list \<Rightarrow> triangle list \<Rightarrow> triangle list" where
  "calc_triangles_intersects intersects triangles =
     (let num_line_segments = int (length intersects)
      in segment_one_loop intersects num_line_segments 0 triangles)"

text \<open>\<open>vector::resize\<close> with value-initialised new elements.\<close>

definition resize :: "'a list \<Rightarrow> nat \<Rightarrow> 'a \<Rightarrow> 'a list" where
  "resize v n d = take n v @ replicate (n - length v) d"

text \<open>
  \<open>calc_triangles(const vector<line_segment>&, vector<triangle>&)\<close>: the vector
  \<open>triangles\<close> is the caller's and is returned as it stands afterwards, with the
  \<open>int\<close> the function returns.
\<close>

definition calc_triangles :: "line_segment list \<Rightarrow> triangle list \<Rightarrow> (triangle list \<times> int) option" where
  "calc_triangles segments triangles =
     (let intersects = resize [] (length segments) [] in
      case calc_intersections segments intersects of
        None \<Rightarrow> None
      | Some intersects' \<Rightarrow>
          (let triangles' = calc_triangles_intersects intersects' triangles
           in Some (triangles', int (length triangles'))))"

section \<open>The formulas and enumerations the properties are stated with\<close>

text \<open>
  The determinant formulas of the comment above \<open>calc_intersection\<close> in the source,
  written on the four points and evaluated in \<open>float\<close> in the order of the source: the
  common denominator and the parameters \<open>t\<close> (along \<open>A\<close> to \<open>B\<close>) and \<open>u\<close> (along \<open>C\<close> to
  \<open>D\<close>).
\<close>

definition det_denominator :: "point \<Rightarrow> point \<Rightarrow> point \<Rightarrow> point \<Rightarrow> float" where
  "det_denominator A B C D = (x A - x B) * (y C - y D) - (y A - y B) * (x C - x D)"

definition det_t :: "point \<Rightarrow> point \<Rightarrow> point \<Rightarrow> point \<Rightarrow> float" where
  "det_t A B C D =
     ((x A - x C) * (y C - y D) - (y A - y C) * (x C - x D)) / det_denominator A B C D"

definition det_u :: "point \<Rightarrow> point \<Rightarrow> point \<Rightarrow> point \<Rightarrow> float" where
  "det_u A B C D =
     ((x A - x C) * (y A - y B) - (y A - y C) * (x A - x B)) / det_denominator A B C D"

text \<open>
  The intersection of two segments as an optional point: the flag and the point
  \<open>calc_intersection\<close> leaves in \<open>pt\<close>, whatever \<open>pt\<close> held before.
\<close>

definition intersect :: "line_segment \<Rightarrow> line_segment \<Rightarrow> point option" where
  "intersect ls1 ls2 =
     (let r = calc_intersection_ls ls1 ls2 \<lparr>x = 0, y = 0\<rparr>
      in if fst r then Some (snd r) else None)"

text \<open>A sequence of points contains a point approximately equal to \<open>pt\<close>.\<close>

definition contains_approx :: "point list \<Rightarrow> point \<Rightarrow> bool" where
  "contains_approx ps pt \<longleftrightarrow> (\<exists>e\<in>set ps. point_eq e pt)"

text \<open>Append \<open>pt\<close> unless an approximately equal point is already present.\<close>

definition append_unless_present :: "point list \<Rightarrow> point \<Rightarrow> point list" where
  "append_unless_present ps pt = (if contains_approx ps pt then ps else ps @ [pt])"

text \<open>The pairs of segment indices \<open>(i, j)\<close> with \<open>i < j < n\<close>, in the order of the two loops.\<close>

definition index_pairs :: "nat \<Rightarrow> (nat \<times> nat) list" where
  "index_pairs n = [(i, j). i \<leftarrow> [0..<n], j \<leftarrow> [i + 1..<n]]"

text \<open>
  What the aggregator does with one pair: when the two segments intersect, the point
  goes to segment \<open>i\<close>'s sequence and likewise to segment \<open>j\<close>'s.
\<close>

definition record_pair ::
  "line_segment list \<Rightarrow> point list list \<Rightarrow> nat \<times> nat \<Rightarrow> point list list" where
  "record_pair segments intersects ij =
     (case ij of (i, j) \<Rightarrow>
        (case intersect (segments ! i) (segments ! j) of
           None \<Rightarrow> intersects
         | Some P \<Rightarrow>
             (let intersects1 = intersects[i := append_unless_present (intersects ! i) P]
              in intersects1[j := append_unless_present (intersects1 ! j) P])))"

text \<open>No two points at different positions of a sequence are approximately equal.\<close>

definition pairwise_unequal :: "point list \<Rightarrow> bool" where
  "pairwise_unequal ps \<longleftrightarrow>
     (\<forall>a<length ps. \<forall>b<length ps. a \<noteq> b \<longrightarrow> \<not> point_eq (ps ! a) (ps ! b))"

text \<open>A point with finite coordinates (neither an infinity nor NaN).\<close>

definition finite_point :: "point \<Rightarrow> bool" where
  "finite_point p \<longleftrightarrow> is_finite (x p) \<and> is_finite (y p)"

text \<open>
  The determinant formulas in exact arithmetic, on the real values of finite
  coordinates: what the formulas of the source denote before any rounding.
\<close>

definition exact_denominator :: "point \<Rightarrow> point \<Rightarrow> point \<Rightarrow> point \<Rightarrow> real" where
  "exact_denominator A B C D =
     (valof (x A) - valof (x B)) * (valof (y C) - valof (y D))
     - (valof (y A) - valof (y B)) * (valof (x C) - valof (x D))"

definition exact_t :: "point \<Rightarrow> point \<Rightarrow> point \<Rightarrow> point \<Rightarrow> real" where
  "exact_t A B C D =
     ((valof (x A) - valof (x C)) * (valof (y C) - valof (y D))
      - (valof (y A) - valof (y C)) * (valof (x C) - valof (x D))) / exact_denominator A B C D"

definition exact_u :: "point \<Rightarrow> point \<Rightarrow> point \<Rightarrow> point \<Rightarrow> real" where
  "exact_u A B C D =
     ((valof (x A) - valof (x C)) * (valof (y A) - valof (y B))
      - (valof (y A) - valof (y C)) * (valof (x A) - valof (x B))) / exact_denominator A B C D"

text \<open>
  The tuples \<open>(i, j, k, P, Q, R)\<close> of the enumeration in the order the loops visit
  them: three segment indices \<open>i < j < k\<close>, \<open>P\<close> on segment \<open>i\<close> and (approximately) on
  segment \<open>j\<close>, \<open>Q\<close> on segment \<open>j\<close>, different from \<open>P\<close> and (approximately) on segment
  \<open>k\<close>, \<open>R\<close> on segment \<open>k\<close>, different from \<open>Q\<close> and (approximately) on segment \<open>i\<close>.
\<close>

definition triangle_tuples ::
  "point list list \<Rightarrow> (nat \<times> nat \<times> nat \<times> point \<times> point \<times> point) list" where
  "triangle_tuples intersects =
     [(i, j, k, P, Q, R).
        i \<leftarrow> [0..<length intersects - 2],
        P \<leftarrow> intersects ! i,
        j \<leftarrow> [i + 1..<length intersects - 1],
        contains_approx (intersects ! j) P,
        Q \<leftarrow> intersects ! j,
        \<not> point_eq Q P,
        k \<leftarrow> [j + 1..<length intersects],
        contains_approx (intersects ! k) Q,
        R \<leftarrow> intersects ! k,
        \<not> point_eq R Q,
        contains_approx (intersects ! i) R]"

definition tuple_triangle :: "nat \<times> nat \<times> nat \<times> point \<times> point \<times> point \<Rightarrow> triangle" where
  "tuple_triangle tup =
     (case tup of (i, j, k, P, Q, R) \<Rightarrow> \<lparr>p1 = P, p2 = Q, p3 = R\<rparr>)"

section \<open>Evaluating single-precision arithmetic on numerals\<close>

lemma exponent_ge_numeral:
  "exponent_ge (numeral k) a = (if 2 \<le> a then exponent_ge (pred_numeral k) (a / 2) + 1 else 0)"
  by (simp add: numeral_eq_Suc)

lemma exponent_lt_numeral:
  "exponent_lt (numeral k) a = (if a < 1 then exponent_lt (pred_numeral k) (a * 2) - 1 else 0)"
  by (simp add: numeral_eq_Suc)

lemma replicate_numeral: "replicate (numeral k) a = a # replicate (pred_numeral k) a"
  by (simp add: numeral_eq_Suc)

lemmas float_eval = round32_def round_pos_def exponent32_def round_even_def
  exponent_ge_numeral exponent_lt_numeral Let_def power_int_def power_one_over
  minus_float_def compare_tolerance_def zero_float_def one_float_def signed_inf_def

lemmas run_eval = calc_triangles_def calc_triangles_intersects_def resize_def
  calc_intersections_def calc_intersections_i.simps calc_intersections_j.simps
  add_intersect_def calc_intersection_ls_def line_segment4_def calc_intersection_def
  point_eq_def segment_one_loop.simps segment_two_loop.simps segment_three_loop.simps
  replicate_numeral float_eval

section \<open>Signs and symmetry of the operations\<close>

lemma round_pos_cases: "round_pos a = PlusInf \<or> (\<exists>v. round_pos a = Finite v)"
  by (simp add: round_pos_def Let_def)

lemma round32_uminus: "round32 (- r) = - round32 r"
  using round_pos_cases [of r] round_pos_cases [of "- r"]
  by (auto simp add: round32_def)

lemma float_neg_neg: "- (- a) = (a::float)"
  by (cases a) simp_all

lemma float_add_commute: "a + b = b + (a::float)"
  by (cases a; cases b) (simp_all add: add.commute)

lemma float_neg_add: "- (a + b) = - a + - (b::float)"
  by (cases a; cases b) (simp_all add: round32_uminus [symmetric])

lemma float_diff_swap: "b - a = - (a - (b::float))"
  by (simp add: minus_float_def float_neg_add float_neg_neg float_add_commute)




lemma sign_float_uminus: "sign_float (- a) = - sign_float a"
  by (cases a) auto



lemma float_abs_neg: "\<bar>- a\<bar> = \<bar>a::float\<bar>"
  by (cases a) simp_all

lemma float_abs_diff_commute: "\<bar>a - b\<bar> = \<bar>b - (a::float)\<bar>"
  by (simp add: float_diff_swap [of a b] float_abs_neg)

lemma float_le_not_less: "a \<le> b \<Longrightarrow> \<not> b < (a::float)"
  by (cases a; cases b) (auto simp add: less_eq_float_def)

text \<open>A divisor that has passed the tolerance test is not zero.\<close>

lemma divisor_not_zero: "\<not> \<bar>d\<bar> < compare_tolerance \<Longrightarrow> d \<noteq> Finite 0"
  by (auto simp add: compare_tolerance_def)

lemma point_eq_sym: "point_eq a b \<longleftrightarrow> point_eq b a"
  by (simp add: point_eq_def float_abs_diff_commute [of "x a"] float_abs_diff_commute [of "y a"])

lemma find_point_iff: "find_point points pt \<longleftrightarrow> contains_approx points pt"
  by (induction points) (auto simp add: contains_approx_def)

section \<open>Rounding near the tolerance\<close>

lemma round_even_upper: "real_of_int (round_even q) \<le> q + 1 / 2"
  by (simp add: round_even_def Let_def) linarith

lemma round_even_nonneg: "0 \<le> q \<Longrightarrow> 0 \<le> round_even q"
  by (simp add: round_even_def Let_def)

lemma round_even_floor: "round_even q \<le> \<lfloor>q\<rfloor> + 1"
  by (simp add: round_even_def Let_def)

lemma round_even_le: "q < real_of_int k + 1 / 2 \<Longrightarrow> round_even q \<le> k"
proof (cases "\<lfloor>q\<rfloor> = k")
  case True
  assume "q < real_of_int k + 1 / 2"
  with True have "q - real_of_int \<lfloor>q\<rfloor> < 1 / 2"
    by simp
  with True show ?thesis
    by (simp add: round_even_def Let_def)
next
  case False
  assume "q < real_of_int k + 1 / 2"
  then have "\<lfloor>q\<rfloor> \<le> k"
    by linarith
  with False have "\<lfloor>q\<rfloor> + 1 \<le> k"
    by simp
  with round_even_floor [of q] show ?thesis
    by simp
qed

lemma exponent_lt_upper: "0 < a \<Longrightarrow> a < 2 \<Longrightarrow> a < 2 powi (exponent_lt n a + 1)"
proof (induction n arbitrary: a)
  case 0
  then show ?case by simp
next
  case (Suc n)
  show ?case
  proof (cases "a < 1")
    case True
    with Suc.prems have "a * 2 < 2 powi (exponent_lt n (a * 2) + 1)"
      by (intro Suc.IH) simp_all
    also have "2 powi (exponent_lt n (a * 2) + 1) = 2 powi exponent_lt n (a * 2) * (2::real)"
      by (simp add: power_int_add)
    finally show ?thesis
      using True by simp
  next
    case False
    with Suc.prems show ?thesis by simp
  qed
qed

lemma exponent_lt_lower:
  "0 < a \<Longrightarrow> exponent_lt n a = - int n \<or> 2 powi exponent_lt n a \<le> a"
proof (induction n arbitrary: a)
  case 0
  then show ?case by simp
next
  case (Suc n)
  show ?case
  proof (cases "a < 1")
    case True
    from Suc.prems have "exponent_lt n (a * 2) = - int n \<or> 2 powi exponent_lt n (a * 2) \<le> a * 2"
      by (intro Suc.IH) simp
    moreover have "2 powi (exponent_lt n (a * 2) - 1) = 2 powi exponent_lt n (a * 2) / (2::real)"
      by (simp add: power_int_diff)
    ultimately show ?thesis
      using True by auto
  next
    case False
    then show ?thesis by simp
  qed
qed


lemma round_pos_small:
  assumes "0 < a" and "a < 1 / 100000"
  shows "\<exists>v. round_pos a = Finite v \<and> 0 \<le> v \<and> v < 5902958103587057 / 2 ^ 69"
proof -
  define e where "e = exponent_lt 126 a"
  define ulp :: real where "ulp = 2 powi (e - 23)"
  define v where "v = real_of_int (round_even (a / ulp)) * ulp"
  have ulp_pos: "0 < ulp"
    by (simp add: ulp_def)
  have small: "a < 2 ^ 128 - 2 ^ 103" "\<not> 1 \<le> a" "a < 2"
    using assms by simp_all
  then have rp: "round_pos a = Finite v"
    by (simp add: round_pos_def exponent32_def Let_def v_def ulp_def e_def)
  have nonneg: "0 \<le> v"
    using assms ulp_pos by (simp add: v_def round_even_nonneg)
  have upper: "a < 2 powi (e + 1)"
    unfolding e_def using assms(1) small(3) by (rule exponent_lt_upper)
  have lower: "e = - 126 \<or> 2 powi e \<le> a"
    unfolding e_def using exponent_lt_lower [OF assms(1), of 126] by simp
  have e17: "e \<le> - 17"
  proof (rule ccontr)
    assume "\<not> e \<le> - 17"
    then have "- 16 \<le> e"
      by simp
    then have "(2::real) powi (- 16) \<le> 2 powi e"
      by (intro power_int_increasing) simp_all
    moreover from \<open>- 16 \<le> e\<close> lower have "2 powi e \<le> a"
      by auto
    ultimately have "(2::real) powi (- 16) \<le> a"
      by simp
    with assms(2) show False
      by (simp add: power_int_def power_one_over)
  qed
  have "v < 5902958103587057 / 2 ^ 69"
  proof (cases "e = - 17")
    case True
    then have ulp: "ulp = 1 / 2 ^ 40"
      by (simp add: ulp_def power_int_def power_one_over)
    from assms(2) have "a / ulp < real_of_int 10995116 + 1 / 2"
      by (simp add: ulp)
    then have "round_even (a / ulp) \<le> 10995116"
      by (rule round_even_le)
    then have "real_of_int (round_even (a / ulp)) \<le> 10995116"
      by simp
    then have "v \<le> 10995116 * ulp"
      unfolding v_def using ulp_pos by (intro mult_right_mono) simp_all
    then show ?thesis
      by (simp add: ulp)
  next
    case False
    with e17 have e18: "e + 1 \<le> - 17" "e - 23 \<le> - 41"
      by simp_all
    have "v \<le> (a / ulp + 1 / 2) * ulp"
      unfolding v_def using ulp_pos round_even_upper [of "a / ulp"]
      by (intro mult_right_mono) simp_all
    also have "\<dots> = a + ulp / 2"
      using ulp_pos by (simp add: field_simps)
    also have "\<dots> < 2 powi (e + 1) + ulp / 2"
      using upper by simp
    also have "\<dots> \<le> 2 powi (- 17) + 2 powi (- 41) / 2"
    proof -
      have "(2::real) powi (e + 1) \<le> 2 powi (- 17)"
        using e18(1) by (intro power_int_increasing) simp_all
      moreover have "ulp \<le> 2 powi (- 41)"
        unfolding ulp_def using e18(2) by (intro power_int_increasing) simp_all
      ultimately show ?thesis
        by simp
    qed
    also have "\<dots> < 5902958103587057 / 2 ^ 69"
      by (simp add: power_int_def power_one_over)
    finally show ?thesis .
  qed
  with rp nonneg show ?thesis
    by blast
qed

lemma round32_small:
  assumes "\<bar>d\<bar> < 1 / 100000"
  shows "\<bar>round32 d\<bar> < compare_tolerance"
proof -
  consider "d = 0" | "0 < d" | "d < 0"
    by linarith
  then show ?thesis
  proof cases
    case 1
    then show ?thesis
      by (simp add: round32_def compare_tolerance_def)
  next
    case 2
    with assms obtain v where "round_pos d = Finite v" "0 \<le> v" "v < 5902958103587057 / 2 ^ 69"
      using round_pos_small [of d] by auto
    with 2 show ?thesis
      by (simp add: round32_def compare_tolerance_def)
  next
    case 3
    with assms obtain v where "round_pos (- d) = Finite v" "0 \<le> v" "v < 5902958103587057 / 2 ^ 69"
      using round_pos_small [of "- d"] by auto
    with 3 show ?thesis
      by (simp add: round32_def compare_tolerance_def)
  qed
qed

lemma point_eq_close:
  assumes "finite_point a" and "finite_point b"
    and "\<bar>valof (x a) - valof (x b)\<bar> < 1 / 100000"
    and "\<bar>valof (y a) - valof (y b)\<bar> < 1 / 100000"
  shows "point_eq a b"
proof -
  from assms(1,2) obtain ax ay bx bz
    where c: "x a = Finite ax" "y a = Finite ay" "x b = Finite bx" "y b = Finite bz"
    unfolding finite_point_def
    by (cases "x a"; cases "y a"; cases "x b"; cases "y b") simp_all
  with assms(3,4) have "\<bar>round32 (ax - bx)\<bar> < compare_tolerance"
    and "\<bar>round32 (ay - bz)\<bar> < compare_tolerance"
    by (simp_all add: round32_small)
  with c show ?thesis
    by (simp add: point_eq_def minus_float_def)
qed

section \<open>Properties of the intersection calculator\<close>

lemma calc_intersection_cases:
  "calc_intersection A B C D pt =
     (if \<bar>det_denominator A B C D\<bar> < compare_tolerance then (False, \<lparr>x = 0, y = 0\<rparr>)
      else if det_t A B C D < 0 \<or> det_t A B C D > 1 then (False, \<lparr>x = 0, y = 0\<rparr>)
      else if det_u A B C D < 0 \<or> det_u A B C D > 1 then (False, \<lparr>x = 0, y = 0\<rparr>)
      else (True, \<lparr>x = x A + det_t A B C D * (x B - x A),
                   y = y A + det_t A B C D * (y B - y A)\<rparr>))"
  by (simp add: calc_intersection_def det_denominator_def det_t_def det_u_def Let_def)

text \<open>
  C2, as the code has it. Every operation below is the \<open>float\<close> one, rounded to single
  precision. For all points \<open>A\<close>, \<open>B\<close>, \<open>C\<close>, \<open>D\<close>: \<open>calc_intersection\<close> returns no point
  when the absolute value of the denominator \<open>(x1-x2)(y3-y4) - (y1-y2)(x3-x4)\<close> compares
  below the tolerance; it returns no point when the computed \<open>t\<close> or the computed \<open>u\<close> of
  the determinant formulas compares below 0 or above 1; in every other case, which
  includes a denominator, a \<open>t\<close> or a \<open>u\<close> that is NaN, it returns the point
  \<open>(x1 + t * (x2 - x1), y1 + t * (y2 - y1))\<close>.
\<close>

theorem calc_intersection_float_spec:
  "calc_intersection A B C D pt =
     (if \<bar>(x A - x B) * (y C - y D) - (y A - y B) * (x C - x D)\<bar> < compare_tolerance
      then (False, \<lparr>x = 0, y = 0\<rparr>)
      else if det_t A B C D < 0 \<or> 1 < det_t A B C D \<or> det_u A B C D < 0 \<or> 1 < det_u A B C D
      then (False, \<lparr>x = 0, y = 0\<rparr>)
      else (True, \<lparr>x = x A + det_t A B C D * (x B - x A),
                   y = y A + det_t A B C D * (y B - y A)\<rparr>))"
  by (simp add: calc_intersection_cases det_denominator_def)

theorem calc_intersection_float_spec_witness:
  "calc_intersection \<lparr>x = Finite 0, y = Finite 0\<rparr> \<lparr>x = Finite 2, y = Finite 2\<rparr>
     \<lparr>x = Finite 0, y = Finite 2\<rparr> \<lparr>x = Finite 2, y = Finite 0\<rparr> \<lparr>x = Finite 5, y = Finite 5\<rparr>
     = (True, \<lparr>x = Finite 1, y = Finite 1\<rparr>)"
  using calc_intersection_float_spec [of "\<lparr>x = Finite 0, y = Finite 0\<rparr>"
      "\<lparr>x = Finite 2, y = Finite 2\<rparr>" "\<lparr>x = Finite 0, y = Finite 2\<rparr>"
      "\<lparr>x = Finite 2, y = Finite 0\<rparr>" "\<lparr>x = Finite 5, y = Finite 5\<rparr>"]
  by (simp add: det_t_def det_u_def det_denominator_def float_eval)

text \<open>
  The claim C2 as it is written, with its formulas read in exact arithmetic, fails in
  two ways. The segments from \<open>(0, 0)\<close> to \<open>(1, 1)\<close> and from \<open>(0, 2)\<close> to \<open>(1, 0)\<close> cross
  at \<open>t = 2/3\<close>, at the point \<open>(2/3, 2/3)\<close>; the function returns the single-precision
  value \<open>11184811 / 16777216\<close> in both coordinates, which is not \<open>2/3\<close>. And the segment
  from \<open>(2 ^ 67, 2 ^ 67)\<close> to \<open>(0, 0)\<close> does not meet the segment from \<open>(0, 2)\<close> to
  \<open>(0, 1)\<close>: the lines cross at \<open>u = 2\<close>, outside the second segment. There the two
  products of the numerator of \<open>u\<close> overflow, \<open>u\<close> is NaN, both range tests on \<open>u\<close> are
  false, and the function returns the point \<open>(0, 0)\<close>.
\<close>

theorem calc_intersection_not_exact:
  "calc_intersection \<lparr>x = Finite 0, y = Finite 0\<rparr> \<lparr>x = Finite 1, y = Finite 1\<rparr>
       \<lparr>x = Finite 0, y = Finite 2\<rparr> \<lparr>x = Finite 1, y = Finite 0\<rparr> \<lparr>x = Finite 0, y = Finite 0\<rparr>
     = (True, \<lparr>x = Finite (11184811 / 16777216), y = Finite (11184811 / 16777216)\<rparr>)
   \<and> exact_t \<lparr>x = Finite 0, y = Finite 0\<rparr> \<lparr>x = Finite 1, y = Finite 1\<rparr>
       \<lparr>x = Finite 0, y = Finite 2\<rparr> \<lparr>x = Finite 1, y = Finite 0\<rparr> = 2 / 3
   \<and> (11184811 / 16777216 :: real) \<noteq> 2 / 3
   \<and> calc_intersection \<lparr>x = Finite (2 ^ 67), y = Finite (2 ^ 67)\<rparr> \<lparr>x = Finite 0, y = Finite 0\<rparr>
       \<lparr>x = Finite 0, y = Finite 2\<rparr> \<lparr>x = Finite 0, y = Finite 1\<rparr> \<lparr>x = Finite 0, y = Finite 0\<rparr>
     = (True, \<lparr>x = Finite 0, y = Finite 0\<rparr>)
   \<and> det_u \<lparr>x = Finite (2 ^ 67), y = Finite (2 ^ 67)\<rparr> \<lparr>x = Finite 0, y = Finite 0\<rparr>
       \<lparr>x = Finite 0, y = Finite 2\<rparr> \<lparr>x = Finite 0, y = Finite 1\<rparr> = NaN
   \<and> exact_u \<lparr>x = Finite (2 ^ 67), y = Finite (2 ^ 67)\<rparr> \<lparr>x = Finite 0, y = Finite 0\<rparr>
       \<lparr>x = Finite 0, y = Finite 2\<rparr> \<lparr>x = Finite 0, y = Finite 1\<rparr> = 2"
proof -
  have "calc_intersection \<lparr>x = Finite 0, y = Finite 0\<rparr> \<lparr>x = Finite 1, y = Finite 1\<rparr>
       \<lparr>x = Finite 0, y = Finite 2\<rparr> \<lparr>x = Finite 1, y = Finite 0\<rparr> \<lparr>x = Finite 0, y = Finite 0\<rparr>
     = (True, \<lparr>x = Finite (11184811 / 16777216), y = Finite (11184811 / 16777216)\<rparr>)"
    by (simp add: calc_intersection_def float_eval)
  moreover have "exact_t \<lparr>x = Finite 0, y = Finite 0\<rparr> \<lparr>x = Finite 1, y = Finite 1\<rparr>
       \<lparr>x = Finite 0, y = Finite 2\<rparr> \<lparr>x = Finite 1, y = Finite 0\<rparr> = 2 / 3"
    by (simp add: exact_t_def exact_denominator_def)
  moreover have "(11184811 / 16777216 :: real) \<noteq> 2 / 3"
    by simp
  moreover have "calc_intersection \<lparr>x = Finite (2 ^ 67), y = Finite (2 ^ 67)\<rparr>
       \<lparr>x = Finite 0, y = Finite 0\<rparr> \<lparr>x = Finite 0, y = Finite 2\<rparr> \<lparr>x = Finite 0, y = Finite 1\<rparr>
       \<lparr>x = Finite 0, y = Finite 0\<rparr>
     = (True, \<lparr>x = Finite 0, y = Finite 0\<rparr>)"
    by (simp add: calc_intersection_def float_eval)
  moreover have "det_u \<lparr>x = Finite (2 ^ 67), y = Finite (2 ^ 67)\<rparr> \<lparr>x = Finite 0, y = Finite 0\<rparr>
       \<lparr>x = Finite 0, y = Finite 2\<rparr> \<lparr>x = Finite 0, y = Finite 1\<rparr> = NaN"
    by (simp add: det_u_def det_denominator_def float_eval)
  moreover have "exact_u \<lparr>x = Finite (2 ^ 67), y = Finite (2 ^ 67)\<rparr> \<lparr>x = Finite 0, y = Finite 0\<rparr>
       \<lparr>x = Finite 0, y = Finite 2\<rparr> \<lparr>x = Finite 0, y = Finite 1\<rparr> = 2"
    by (simp add: exact_u_def exact_denominator_def)
  ultimately show ?thesis
    by blast
qed

text \<open>
  C7, as the code has it. When the computed denominator passes the tolerance test (its
  absolute value does not compare below the tolerance) and, of the computed parameters,
  one is exactly 0 or exactly 1 while the other lies in the closed interval from 0 to 1,
  \<open>calc_intersection\<close> reports an intersection, at the point
  \<open>(x1 + t * (x2 - x1), y1 + t * (y2 - y1))\<close>: the interval the two parameters are
  accepted in is closed.
\<close>

theorem calc_intersection_boundary:
  assumes "\<not> \<bar>det_denominator A B C D\<bar> < compare_tolerance"
    and "(det_t A B C D = 0 \<or> det_t A B C D = 1) \<and> 0 \<le> det_u A B C D \<and> det_u A B C D \<le> 1
       \<or> (det_u A B C D = 0 \<or> det_u A B C D = 1) \<and> 0 \<le> det_t A B C D \<and> det_t A B C D \<le> 1"
  shows "calc_intersection A B C D pt =
           (True, \<lparr>x = x A + det_t A B C D * (x B - x A),
                   y = y A + det_t A B C D * (y B - y A)\<rparr>)"
proof -
  have zero_one: "\<not> (0::float) < 0" "\<not> (1::float) < 0" "\<not> (1::float) < 1" "\<not> (1::float) < 0"
    "\<not> (0::float) > 1"
    by (simp_all add: zero_float_def one_float_def)
  from assms(2) have "\<not> det_t A B C D < 0 \<and> \<not> det_t A B C D > 1
      \<and> \<not> det_u A B C D < 0 \<and> \<not> det_u A B C D > 1"
    using zero_one by (auto dest: float_le_not_less)
  with assms(1) show ?thesis
    by (simp add: calc_intersection_cases)
qed

theorem calc_intersection_boundary_witness:
  "calc_intersection \<lparr>x = Finite 0, y = Finite 0\<rparr> \<lparr>x = Finite 2, y = Finite 0\<rparr>
     \<lparr>x = Finite 2, y = Finite 0\<rparr> \<lparr>x = Finite 2, y = Finite 3\<rparr> \<lparr>x = Finite 5, y = Finite 5\<rparr>
     = (True, \<lparr>x = Finite 2, y = Finite 0\<rparr>)"
proof -
  let ?A = "\<lparr>x = Finite 0, y = Finite 0\<rparr>" and ?B = "\<lparr>x = Finite 2, y = Finite 0\<rparr>"
  let ?C = "\<lparr>x = Finite 2, y = Finite 0\<rparr>" and ?D = "\<lparr>x = Finite 2, y = Finite 3\<rparr>"
  have den: "det_denominator ?A ?B ?C ?D = Finite 6"
    by (simp add: det_denominator_def float_eval)
  have t: "det_t ?A ?B ?C ?D = 1"
    by (simp add: det_t_def den) (simp add: float_eval)
  have u: "det_u ?A ?B ?C ?D = 0"
    by (simp add: det_u_def den) (simp add: float_eval)
  have h1: "\<not> \<bar>det_denominator ?A ?B ?C ?D\<bar> < compare_tolerance"
    by (simp add: den compare_tolerance_def)
  have h2: "(det_t ?A ?B ?C ?D = 0 \<or> det_t ?A ?B ?C ?D = 1)
       \<and> 0 \<le> det_u ?A ?B ?C ?D \<and> det_u ?A ?B ?C ?D \<le> 1
     \<or> (det_u ?A ?B ?C ?D = 0 \<or> det_u ?A ?B ?C ?D = 1)
       \<and> 0 \<le> det_t ?A ?B ?C ?D \<and> det_t ?A ?B ?C ?D \<le> 1"
    by (simp add: t u) (simp add: less_eq_float_def zero_float_def one_float_def)
  from calc_intersection_boundary [OF h1 h2, of "\<lparr>x = Finite 5, y = Finite 5\<rparr>"] show ?thesis
    by (simp add: t) (simp add: float_eval)
qed

text \<open>
  The claim C7 as it is written fails in two ways. The segments from \<open>(4529, 348)\<close> to
  \<open>(256, 3207)\<close> and from \<open>(3571, 4603)\<close> to \<open>(256, 3207)\<close> are not parallel (the exact
  denominator is \<open>15442693\<close>) and end in the same point, so that \<open>t = 1\<close> and \<open>u = 1\<close>
  exactly; the computed \<open>u\<close> is the next \<open>float\<close> above 1 and no intersection is
  reported. The perpendicular segments from \<open>(0, 0)\<close> to \<open>(1/1024, 0)\<close> and from \<open>(0, 0)\<close> to
  \<open>(0, 1/1024)\<close> start in the same point, \<open>t = 0\<close> and \<open>u = 0\<close>; their denominator \<open>2 ^ -20\<close>
  is below the tolerance and no intersection is reported.
\<close>

theorem calc_intersection_boundary_missed:
  "calc_intersection \<lparr>x = Finite 4529, y = Finite 348\<rparr> \<lparr>x = Finite 256, y = Finite 3207\<rparr>
       \<lparr>x = Finite 3571, y = Finite 4603\<rparr> \<lparr>x = Finite 256, y = Finite 3207\<rparr>
       \<lparr>x = Finite 0, y = Finite 0\<rparr>
     = (False, \<lparr>x = Finite 0, y = Finite 0\<rparr>)
   \<and> exact_denominator \<lparr>x = Finite 4529, y = Finite 348\<rparr> \<lparr>x = Finite 256, y = Finite 3207\<rparr>
       \<lparr>x = Finite 3571, y = Finite 4603\<rparr> \<lparr>x = Finite 256, y = Finite 3207\<rparr> = 15442693
   \<and> exact_t \<lparr>x = Finite 4529, y = Finite 348\<rparr> \<lparr>x = Finite 256, y = Finite 3207\<rparr>
       \<lparr>x = Finite 3571, y = Finite 4603\<rparr> \<lparr>x = Finite 256, y = Finite 3207\<rparr> = 1
   \<and> exact_u \<lparr>x = Finite 4529, y = Finite 348\<rparr> \<lparr>x = Finite 256, y = Finite 3207\<rparr>
       \<lparr>x = Finite 3571, y = Finite 4603\<rparr> \<lparr>x = Finite 256, y = Finite 3207\<rparr> = 1
   \<and> det_u \<lparr>x = Finite 4529, y = Finite 348\<rparr> \<lparr>x = Finite 256, y = Finite 3207\<rparr>
       \<lparr>x = Finite 3571, y = Finite 4603\<rparr> \<lparr>x = Finite 256, y = Finite 3207\<rparr>
     = Finite (8388609 / 8388608)
   \<and> calc_intersection \<lparr>x = Finite 0, y = Finite 0\<rparr> \<lparr>x = Finite (1 / 1024), y = Finite 0\<rparr>
       \<lparr>x = Finite 0, y = Finite 0\<rparr> \<lparr>x = Finite 0, y = Finite (1 / 1024)\<rparr>
       \<lparr>x = Finite 0, y = Finite 0\<rparr>
     = (False, \<lparr>x = Finite 0, y = Finite 0\<rparr>)
   \<and> exact_denominator \<lparr>x = Finite 0, y = Finite 0\<rparr> \<lparr>x = Finite (1 / 1024), y = Finite 0\<rparr>
       \<lparr>x = Finite 0, y = Finite 0\<rparr> \<lparr>x = Finite 0, y = Finite (1 / 1024)\<rparr> = 1 / 2 ^ 20
   \<and> exact_t \<lparr>x = Finite 0, y = Finite 0\<rparr> \<lparr>x = Finite (1 / 1024), y = Finite 0\<rparr>
       \<lparr>x = Finite 0, y = Finite 0\<rparr> \<lparr>x = Finite 0, y = Finite (1 / 1024)\<rparr> = 0
   \<and> exact_u \<lparr>x = Finite 0, y = Finite 0\<rparr> \<lparr>x = Finite (1 / 1024), y = Finite 0\<rparr>
       \<lparr>x = Finite 0, y = Finite 0\<rparr> \<lparr>x = Finite 0, y = Finite (1 / 1024)\<rparr> = 0"
proof -
  let ?A = "\<lparr>x = Finite 4529, y = Finite 348\<rparr>" and ?B = "\<lparr>x = Finite 256, y = Finite 3207\<rparr>"
  let ?C = "\<lparr>x = Finite 3571, y = Finite 4603\<rparr>"
  let ?O = "\<lparr>x = Finite 0, y = Finite 0\<rparr>"
  let ?E = "\<lparr>x = Finite (1 / 1024), y = Finite 0\<rparr>" and ?F = "\<lparr>x = Finite 0, y = Finite (1 / 1024)\<rparr>"
  have "calc_intersection ?A ?B ?C ?B ?O = (False, ?O)"
    by (simp add: calc_intersection_def float_eval)
  moreover have "exact_denominator ?A ?B ?C ?B = 15442693"
    by (simp add: exact_denominator_def)
  moreover have "exact_t ?A ?B ?C ?B = 1" "exact_u ?A ?B ?C ?B = 1"
    by (simp_all add: exact_t_def exact_u_def exact_denominator_def)
  moreover have "det_u ?A ?B ?C ?B = Finite (8388609 / 8388608)"
    by (simp add: det_u_def det_denominator_def float_eval)
  moreover have "calc_intersection ?O ?E ?O ?F ?O = (False, ?O)"
    by (simp add: calc_intersection_def float_eval)
  moreover have "exact_denominator ?O ?E ?O ?F = 1 / 2 ^ 20"
    by (simp add: exact_denominator_def)
  moreover have "exact_t ?O ?E ?O ?F = 0" "exact_u ?O ?E ?O ?F = 0"
    by (simp_all add: exact_t_def exact_u_def exact_denominator_def)
  ultimately show ?thesis
    by blast
qed

text \<open>
  C9. Whenever \<open>calc_intersection\<close> reports no intersection, the output parameter \<open>pt\<close>
  is not left as the caller set it: it holds \<open>(0, 0)\<close>, whatever it held before.
\<close>

theorem calc_intersection_failure_resets_pt:
  "\<not> fst (calc_intersection A B C D pt) \<Longrightarrow> snd (calc_intersection A B C D pt) = \<lparr>x = 0, y = 0\<rparr>"
  by (auto simp add: calc_intersection_cases split: if_splits)

theorem calc_intersection_failure_resets_pt_witness:
  "calc_intersection \<lparr>x = Finite 0, y = Finite 0\<rparr> \<lparr>x = Finite 1, y = Finite 0\<rparr>
     \<lparr>x = Finite 0, y = Finite 1\<rparr> \<lparr>x = Finite 1, y = Finite 1\<rparr> \<lparr>x = Finite 7, y = Finite 9\<rparr>
     = (False, \<lparr>x = 0, y = 0\<rparr>)"
proof -
  let ?r = "calc_intersection \<lparr>x = Finite 0, y = Finite 0\<rparr> \<lparr>x = Finite 1, y = Finite 0\<rparr>
      \<lparr>x = Finite 0, y = Finite 1\<rparr> \<lparr>x = Finite 1, y = Finite 1\<rparr> \<lparr>x = Finite 7, y = Finite 9\<rparr>"
  have h: "\<not> fst ?r"
    by (simp add: calc_intersection_def float_eval)
  from calc_intersection_failure_resets_pt [OF h] have "snd ?r = \<lparr>x = 0, y = 0\<rparr>" .
  with h show ?thesis
    by (cases ?r) simp
qed

section \<open>The two orders of a pair of segments\<close>







section \<open>The aggregator visits every pair of segments once\<close>

lemma resize_Nil: "resize [] n d = replicate n d"
  by (simp add: resize_def)

lemma add_intersect_Some:
  "i < length intersects \<Longrightarrow>
   add_intersect intersects i pt = Some (intersects[i := append_unless_present (intersects ! i) pt])"
  by (simp add: add_intersect_def append_unless_present_def find_point_iff)

lemma length_record_pair [simp]: "length (record_pair segments intersects ij) = length intersects"
  by (simp add: record_pair_def Let_def split: prod.splits option.splits)

lemma length_foldl_record_pair [simp]:
  "length (foldl (record_pair segments) intersects ps) = length intersects"
  by (induction ps arbitrary: intersects) simp_all

lemma calc_intersections_j_foldl:
  "i < length intersects \<Longrightarrow> length segments \<le> length intersects \<Longrightarrow>
   calc_intersections_j segments i j intersects =
     Some (foldl (record_pair segments) intersects (map (Pair i) [j..<length segments]))"
proof (induction segments i j intersects rule: calc_intersections_j.induct)
  case (1 segments i j intersects)
  show ?case
  proof (cases "j < length segments")
    case False
    then show ?thesis
      by (simp add: calc_intersections_j.simps [of segments i j])
  next
    case True
    let ?r = "calc_intersection_ls (segments ! i) (segments ! j) \<lparr>x = 0, y = 0\<rparr>"
    have upt: "[j..<length segments] = j # [j + 1..<length segments]"
      using True by (simp add: upt_conv_Cons)
    have jlen: "j < length intersects"
      using True "1.prems" by simp
    show ?thesis
    proof (cases "fst ?r")
      case found: True
      let ?s1 = "intersects[i := append_unless_present (intersects ! i) (snd ?r)]"
      let ?s2 = "?s1[j := append_unless_present (?s1 ! j) (snd ?r)]"
      have a1: "add_intersect intersects i (snd ?r) = Some ?s1"
        using "1.prems" by (simp add: add_intersect_Some)
      have a2: "add_intersect ?s1 j (snd ?r) = Some ?s2"
        using jlen by (simp add: add_intersect_Some)
      have step: "record_pair segments intersects (i, j) = ?s2"
        using found by (simp add: record_pair_def intersect_def Let_def)
      have "calc_intersections_j segments i (j + 1) ?s2 =
          Some (foldl (record_pair segments) ?s2 (map (Pair i) [j + 1..<length segments]))"
        using "1.IH"(1) [OF _ refl refl found a1 a2] True "1.prems" by simp
      then show ?thesis
        using True found a1 a2 step
        by (simp add: calc_intersections_j.simps [of segments i j] upt Let_def)
    next
      case notfound: False
      have step: "record_pair segments intersects (i, j) = intersects"
        using notfound by (simp add: record_pair_def intersect_def Let_def)
      have "calc_intersections_j segments i (j + 1) intersects =
          Some (foldl (record_pair segments) intersects (map (Pair i) [j + 1..<length segments]))"
        using "1.IH"(2) [OF _ refl refl notfound] True "1.prems" by simp
      then show ?thesis
        using True notfound step
        by (simp add: calc_intersections_j.simps [of segments i j] upt Let_def)
    qed
  qed
qed


lemma calc_intersections_i_foldl:
  "length segments \<le> length intersects \<Longrightarrow>
   calc_intersections_i segments i intersects =
     Some (foldl (record_pair segments) intersects
       (concat (map (\<lambda>i. map (Pair i) [i + 1..<length segments]) [i..<length segments])))"
proof (induction segments i intersects rule: calc_intersections_i.induct)
  case (1 segments i intersects)
  show ?case
  proof (cases "int i < int (length segments) - 1")
    case False
    then show ?thesis
      by (cases "i < length segments")
        (simp_all add: calc_intersections_i.simps [of segments i] upt_conv_Cons)
  next
    case True
    then have ilen: "i < length segments"
      by simp
    let ?s = "foldl (record_pair segments) intersects (map (Pair i) [i + 1..<length segments])"
    have inner: "calc_intersections_j segments i (i + 1) intersects = Some ?s"
      using ilen "1.prems" by (simp add: calc_intersections_j_foldl)
    have "calc_intersections_i segments (i + 1) ?s =
        Some (foldl (record_pair segments) ?s
          (concat (map (\<lambda>i. map (Pair i) [i + 1..<length segments]) [i + 1..<length segments])))"
      using "1.IH" [OF True inner] "1.prems" by simp
    then show ?thesis
      using True inner ilen
      by (simp add: calc_intersections_i.simps [of segments i] upt_conv_Cons)
  qed
qed

lemma index_pairs_concat:
  "index_pairs n = concat (map (\<lambda>i. map (Pair i) [i + 1..<n]) [0..<n])"
  by (simp add: index_pairs_def)

lemma calc_intersections_foldl:
  "length segments \<le> length intersects \<Longrightarrow>
   calc_intersections segments intersects =
     Some (foldl (record_pair segments) intersects (index_pairs (length segments)))"
  by (simp add: calc_intersections_def calc_intersections_i_foldl index_pairs_concat)

lemma set_index_pairs: "set (index_pairs n) = {(i, j). i < j \<and> j < n}"
proof -
  have "(a, b) \<in> set (index_pairs n) \<longleftrightarrow> a < b \<and> b < n" for a b
    by (auto simp add: index_pairs_def image_iff intro!: bexI [of _ a])
  then show ?thesis
    by auto
qed

lemma distinct_concat_map:
  "distinct xs \<Longrightarrow> (\<And>a. a \<in> set xs \<Longrightarrow> distinct (f a)) \<Longrightarrow>
   (\<And>a b. a \<in> set xs \<Longrightarrow> b \<in> set xs \<Longrightarrow> a \<noteq> b \<Longrightarrow> set (f a) \<inter> set (f b) = {}) \<Longrightarrow>
   distinct (concat (map f xs))"
proof (induction xs)
  case Nil
  then show ?case by simp
next
  case (Cons a xs)
  have "set (f a) \<inter> set (f b) = {}" if "b \<in> set xs" for b
    using Cons.prems(1) Cons.prems(3) [of a b] that by auto
  moreover have "distinct (concat (map f xs))"
    using Cons by simp
  ultimately show ?case
    using Cons.prems(2) [of a] by auto
qed

lemma distinct_index_pairs: "distinct (index_pairs n)"
  unfolding index_pairs_concat
  by (rule distinct_concat_map) (auto simp add: distinct_map inj_on_def)


text \<open>
  C4. The aggregator visits every pair of segment indices \<open>(i, j)\<close> with \<open>i < j\<close> exactly
  once (the list \<open>index_pairs\<close> has no repetition and holds exactly these pairs). At each
  pair where \<open>calc_intersection\<close> yields a point \<open>P\<close> it appends \<open>P\<close> to segment \<open>i\<close>'s
  sequence unless an approximately equal point is already there, and likewise to segment
  \<open>j\<close>'s (\<open>record_pair\<close>). The output has one sequence for each input segment.
\<close>

theorem calc_intersections_visits_pairs:
  assumes "length intersects = length segments"
  shows "calc_intersections segments intersects =
           Some (foldl (record_pair segments) intersects (index_pairs (length segments)))
       \<and> length (foldl (record_pair segments) intersects (index_pairs (length segments))) =
           length segments
       \<and> distinct (index_pairs (length segments))
       \<and> set (index_pairs (length segments)) = {(i, j). i < j \<and> j < length segments}"
  using assms
  by (simp add: calc_intersections_foldl distinct_index_pairs set_index_pairs)

theorem calc_intersections_visits_pairs_witness:
  "calc_intersections
     [line_segment4 (Finite 0) (Finite 0) (Finite 4) (Finite 0),
      line_segment4 (Finite 0) (Finite 0) (Finite 0) (Finite 4),
      line_segment4 (Finite 4) (Finite 0) (Finite 0) (Finite 4)]
     [[], [], []] =
   Some
     [[\<lparr>x = Finite 0, y = Finite 0\<rparr>, \<lparr>x = Finite 4, y = Finite 0\<rparr>],
      [\<lparr>x = Finite 0, y = Finite 0\<rparr>, \<lparr>x = Finite 0, y = Finite 4\<rparr>],
      [\<lparr>x = Finite 4, y = Finite 0\<rparr>, \<lparr>x = Finite 0, y = Finite 4\<rparr>]]
   \<and> foldl (record_pair
     [line_segment4 (Finite 0) (Finite 0) (Finite 4) (Finite 0),
      line_segment4 (Finite 0) (Finite 0) (Finite 0) (Finite 4),
      line_segment4 (Finite 4) (Finite 0) (Finite 0) (Finite 4)])
     [[], [], []] (index_pairs 3) =
     [[\<lparr>x = Finite 0, y = Finite 0\<rparr>, \<lparr>x = Finite 4, y = Finite 0\<rparr>],
      [\<lparr>x = Finite 0, y = Finite 0\<rparr>, \<lparr>x = Finite 0, y = Finite 4\<rparr>],
      [\<lparr>x = Finite 4, y = Finite 0\<rparr>, \<lparr>x = Finite 0, y = Finite 4\<rparr>]]"
proof -
  let ?S = "[line_segment4 (Finite 0) (Finite 0) (Finite 4) (Finite 0),
      line_segment4 (Finite 0) (Finite 0) (Finite 0) (Finite 4),
      line_segment4 (Finite 4) (Finite 0) (Finite 0) (Finite 4)]"
  let ?I = "[[\<lparr>x = Finite 0, y = Finite 0\<rparr>, \<lparr>x = Finite 4, y = Finite 0\<rparr>],
      [\<lparr>x = Finite 0, y = Finite 0\<rparr>, \<lparr>x = Finite 0, y = Finite 4\<rparr>],
      [\<lparr>x = Finite 4, y = Finite 0\<rparr>, \<lparr>x = Finite 0, y = Finite 4\<rparr>]]"
  have len: "length [[], [], []::point list] = length ?S"
    by simp
  have run: "calc_intersections ?S [[], [], []] = Some ?I"
    by (simp add: run_eval)
  with calc_intersections_visits_pairs [OF len]
  have "foldl (record_pair ?S) [[], [], []] (index_pairs (length ?S)) = ?I"
    by simp
  with run show ?thesis
    by (simp add: numeral_3_eq_3)
qed

section \<open>Stored points are pairwise unequal\<close>

lemma pairwise_unequal_Nil: "pairwise_unequal []"
  by (simp add: pairwise_unequal_def)

lemma pairwise_unequal_append_unless_present:
  assumes "pairwise_unequal ps"
  shows "pairwise_unequal (append_unless_present ps pt)"
proof (cases "contains_approx ps pt")
  case True
  with assms show ?thesis
    by (simp add: append_unless_present_def)
next
  case False
  then have new: "\<not> point_eq (ps ! a) pt" if "a < length ps" for a
    using that by (auto simp add: contains_approx_def)
  have "\<not> point_eq ((ps @ [pt]) ! a) ((ps @ [pt]) ! b)"
    if "a < length (ps @ [pt])" "b < length (ps @ [pt])" "a \<noteq> b" for a b
  proof (cases "a < length ps")
    case a: True
    show ?thesis
    proof (cases "b < length ps")
      case True
      with a assms that show ?thesis
        by (simp add: pairwise_unequal_def nth_append)
    next
      case False
      with that have "b = length ps"
        by simp
      with a new [of a] show ?thesis
        by (simp add: nth_append)
    qed
  next
    case False
    with that have a: "a = length ps" and b: "b < length ps"
      by simp_all
    from new [OF b] have "\<not> point_eq pt (ps ! b)"
      by (simp add: point_eq_sym)
    with a b show ?thesis
      by (simp add: nth_append)
  qed
  with False show ?thesis
    by (simp add: append_unless_present_def pairwise_unequal_def)
qed

lemma list_all_update:
  "\<forall>ps\<in>set xs. Q ps \<Longrightarrow> (i < length xs \<Longrightarrow> Q v) \<Longrightarrow> \<forall>ps\<in>set (xs[i := v]). Q ps"
proof (cases "i < length xs")
  case True
  assume "\<forall>ps\<in>set xs. Q ps" and "i < length xs \<Longrightarrow> Q v"
  with True show ?thesis
    using set_update_subset_insert [of xs i v] by auto
next
  case False
  assume "\<forall>ps\<in>set xs. Q ps"
  with False show ?thesis
    by (simp add: list_update_beyond)
qed

lemma pairwise_unequal_record_pair:
  assumes "\<forall>ps\<in>set intersects. pairwise_unequal ps"
  shows "\<forall>ps\<in>set (record_pair segments intersects ij). pairwise_unequal ps"
proof (cases ij)
  case (Pair i j)
  show ?thesis
  proof (cases "intersect (segments ! i) (segments ! j)")
    case None
    with Pair assms show ?thesis
      by (simp add: record_pair_def)
  next
    case (Some P)
    let ?s1 = "intersects[i := append_unless_present (intersects ! i) P]"
    have s1: "\<forall>ps\<in>set ?s1. pairwise_unequal ps"
    proof (rule list_all_update [OF assms])
      assume "i < length intersects"
      with assms have "pairwise_unequal (intersects ! i)"
        by simp
      then show "pairwise_unequal (append_unless_present (intersects ! i) P)"
        by (rule pairwise_unequal_append_unless_present)
    qed
    have "\<forall>ps\<in>set (?s1[j := append_unless_present (?s1 ! j) P]). pairwise_unequal ps"
    proof (rule list_all_update [OF s1])
      assume "j < length ?s1"
      with s1 have "pairwise_unequal (?s1 ! j)"
        using nth_mem by blast
      then show "pairwise_unequal (append_unless_present (?s1 ! j) P)"
        by (rule pairwise_unequal_append_unless_present)
    qed
    with Pair Some show ?thesis
      by (simp add: record_pair_def Let_def)
  qed
qed

lemma pairwise_unequal_foldl_record_pair:
  "\<forall>ps\<in>set intersects. pairwise_unequal ps \<Longrightarrow>
   \<forall>ps\<in>set (foldl (record_pair segments) intersects pairs). pairwise_unequal ps"
proof (induction pairs arbitrary: intersects)
  case Nil
  then show ?case by simp
next
  case (Cons ij pairs)
  from Cons.IH [OF pairwise_unequal_record_pair [OF Cons.prems]] show ?case
    by simp
qed

text \<open>
  C5, as the code has it. After aggregation (from the empty sequences the top-level
  function starts with) there is one sequence for each segment, and no two points at
  different positions of one sequence are approximately equal, that is, \<open>operator==\<close> is
  false of them; when the coordinates of both are finite, they differ by at least \<open>1e-5\<close>
  in \<open>x\<close> or in \<open>y\<close>. The step that stores a point leaves the sequence as it is when a
  stored point is approximately equal to it, and a stored point with finite coordinates
  is approximately equal to every point with finite coordinates within \<open>1e-5\<close> of it in
  both coordinates: of two such points only the first is kept.
\<close>

theorem aggregated_points_pairwise_unequal:
  "(\<exists>out. calc_intersections segments (resize [] (length segments) []) = Some out
      \<and> length out = length segments
      \<and> (\<forall>i<length out. \<forall>a<length (out ! i). \<forall>b<length (out ! i). a \<noteq> b \<longrightarrow>
            \<not> point_eq (out ! i ! a) (out ! i ! b)
          \<and> (finite_point (out ! i ! a) \<and> finite_point (out ! i ! b) \<longrightarrow>
                1 / 100000 \<le> \<bar>valof (x (out ! i ! a)) - valof (x (out ! i ! b))\<bar>
              \<or> 1 / 100000 \<le> \<bar>valof (y (out ! i ! a)) - valof (y (out ! i ! b))\<bar>)))
   \<and> (i < length intersects \<and> e \<in> set (intersects ! i) \<and> point_eq e pt
      \<longrightarrow> add_intersect intersects i pt = Some intersects)
   \<and> (finite_point e \<and> finite_point pt
        \<and> \<bar>valof (x e) - valof (x pt)\<bar> < 1 / 100000 \<and> \<bar>valof (y e) - valof (y pt)\<bar> < 1 / 100000
      \<longrightarrow> point_eq e pt)"
proof -
  let ?out = "foldl (record_pair segments) (replicate (length segments) [])
      (index_pairs (length segments))"
  have "\<forall>ps\<in>set (replicate (length segments) []). pairwise_unequal ps"
    by (simp add: pairwise_unequal_Nil)
  then have "\<forall>ps\<in>set ?out. pairwise_unequal ps"
    by (rule pairwise_unequal_foldl_record_pair)
  then have unequal: "\<forall>i<length ?out. pairwise_unequal (?out ! i)"
    by simp
  have apart: "1 / 100000 \<le> \<bar>valof (x p) - valof (x q)\<bar>
      \<or> 1 / 100000 \<le> \<bar>valof (y p) - valof (y q)\<bar>"
    if "\<not> point_eq p q" "finite_point p" "finite_point q" for p q
    using that point_eq_close [of p q] by fastforce
  have "\<forall>i<length ?out. \<forall>a<length (?out ! i). \<forall>b<length (?out ! i). a \<noteq> b \<longrightarrow>
            \<not> point_eq (?out ! i ! a) (?out ! i ! b)
          \<and> (finite_point (?out ! i ! a) \<and> finite_point (?out ! i ! b) \<longrightarrow>
                1 / 100000 \<le> \<bar>valof (x (?out ! i ! a)) - valof (x (?out ! i ! b))\<bar>
              \<or> 1 / 100000 \<le> \<bar>valof (y (?out ! i ! a)) - valof (y (?out ! i ! b))\<bar>)"
    using unequal apart unfolding pairwise_unequal_def by blast
  moreover have "calc_intersections segments (resize [] (length segments) []) = Some ?out"
    by (simp add: resize_Nil calc_intersections_foldl)
  moreover have "length ?out = length segments"
    by simp
  moreover have "add_intersect intersects i pt = Some intersects"
    if "i < length intersects" "e \<in> set (intersects ! i)" "point_eq e pt"
  proof -
    from that have "contains_approx (intersects ! i) pt"
      by (auto simp add: contains_approx_def)
    with that(1) show ?thesis
      by (simp add: add_intersect_def find_point_iff)
  qed
  moreover have "point_eq e pt"
    if "finite_point e" "finite_point pt"
      "\<bar>valof (x e) - valof (x pt)\<bar> < 1 / 100000" "\<bar>valof (y e) - valof (y pt)\<bar> < 1 / 100000"
    using that by (rule point_eq_close)
  ultimately show ?thesis
    by blast
qed

theorem aggregated_points_pairwise_unequal_witness:
  "(\<exists>out. calc_intersections
        [line_segment4 (Finite 0) (Finite 0) (Finite 4) (Finite 0),
      line_segment4 (Finite 0) (Finite 0) (Finite 0) (Finite 4),
      line_segment4 (Finite 4) (Finite 0) (Finite 0) (Finite 4)]
        (resize [] 3 []) = Some out
      \<and> out ! 0 = [\<lparr>x = Finite 0, y = Finite 0\<rparr>, \<lparr>x = Finite 4, y = Finite 0\<rparr>]
      \<and> \<not> point_eq (out ! 0 ! 0) (out ! 0 ! 1)
      \<and> (1 / 100000 \<le> \<bar>valof (x (out ! 0 ! 0)) - valof (x (out ! 0 ! 1))\<bar>
         \<or> 1 / 100000 \<le> \<bar>valof (y (out ! 0 ! 0)) - valof (y (out ! 0 ! 1))\<bar>))
   \<and> point_eq \<lparr>x = Finite 0, y = Finite 0\<rparr> \<lparr>x = Finite (1 / 1048576), y = Finite 0\<rparr>
   \<and> add_intersect [[\<lparr>x = Finite 0, y = Finite 0\<rparr>]] 0 \<lparr>x = Finite (1 / 1048576), y = Finite 0\<rparr>
        = Some [[\<lparr>x = Finite 0, y = Finite 0\<rparr>]]"
proof -
  let ?S = "[line_segment4 (Finite 0) (Finite 0) (Finite 4) (Finite 0),
      line_segment4 (Finite 0) (Finite 0) (Finite 0) (Finite 4),
      line_segment4 (Finite 4) (Finite 0) (Finite 0) (Finite 4)]"
  let ?I = "[[\<lparr>x = Finite 0, y = Finite 0\<rparr>]]"
  let ?e = "\<lparr>x = Finite 0, y = Finite 0\<rparr>"
  let ?pt = "\<lparr>x = Finite (1 / 1048576), y = Finite 0\<rparr>"
  let ?V = "[[\<lparr>x = Finite 0, y = Finite 0\<rparr>, \<lparr>x = Finite 4, y = Finite 0\<rparr>],
      [\<lparr>x = Finite 0, y = Finite 0\<rparr>, \<lparr>x = Finite 0, y = Finite 4\<rparr>],
      [\<lparr>x = Finite 4, y = Finite 0\<rparr>, \<lparr>x = Finite 0, y = Finite 4\<rparr>]]"
  note inst = aggregated_points_pairwise_unequal [of ?S 0 ?I ?e ?pt]
  from inst obtain out
    where out: "calc_intersections ?S (resize [] (length ?S) []) = Some out"
      and apart: "\<forall>i<length out. \<forall>a<length (out ! i). \<forall>b<length (out ! i). a \<noteq> b \<longrightarrow>
            \<not> point_eq (out ! i ! a) (out ! i ! b)
          \<and> (finite_point (out ! i ! a) \<and> finite_point (out ! i ! b) \<longrightarrow>
                1 / 100000 \<le> \<bar>valof (x (out ! i ! a)) - valof (x (out ! i ! b))\<bar>
              \<or> 1 / 100000 \<le> \<bar>valof (y (out ! i ! a)) - valof (y (out ! i ! b))\<bar>)"
    by blast
  have "calc_intersections ?S (resize [] (length ?S) []) = Some ?V"
    by (simp add: run_eval)
  with out have val: "out = ?V"
    by simp
  then have "0 < length out" "0 < length (out ! 0)" "1 < length (out ! 0)"
    by simp_all
  with apart have a01: "\<not> point_eq (out ! 0 ! 0) (out ! 0 ! 1)
          \<and> (finite_point (out ! 0 ! 0) \<and> finite_point (out ! 0 ! 1) \<longrightarrow>
                1 / 100000 \<le> \<bar>valof (x (out ! 0 ! 0)) - valof (x (out ! 0 ! 1))\<bar>
              \<or> 1 / 100000 \<le> \<bar>valof (y (out ! 0 ! 0)) - valof (y (out ! 0 ! 1))\<bar>)"
    by (metis zero_neq_one)
  from val have fin: "finite_point (out ! 0 ! 0)" "finite_point (out ! 0 ! 1)"
    by (simp_all add: finite_point_def)
  have close: "finite_point ?e \<and> finite_point ?pt
      \<and> \<bar>valof (x ?e) - valof (x ?pt)\<bar> < 1 / 100000 \<and> \<bar>valof (y ?e) - valof (y ?pt)\<bar> < 1 / 100000"
    by (simp add: finite_point_def)
  with inst have eq: "point_eq ?e ?pt"
    by blast
  with inst have "add_intersect ?I 0 ?pt = Some ?I"
    by simp
  moreover from val have "out ! 0 = [\<lparr>x = Finite 0, y = Finite 0\<rparr>, \<lparr>x = Finite 4, y = Finite 0\<rparr>]"
    by simp
  moreover from out have "calc_intersections ?S (resize [] 3 []) = Some out"
    by (simp add: numeral_3_eq_3)
  ultimately show ?thesis
    using a01 fin eq by blast
qed

text \<open>
  The claim C5 as it is written fails on three segments from \<open>(0, 0)\<close> to \<open>(2 ^ 67, 2 ^ 67)\<close>,
  to \<open>(2 ^ 67, 2 ^ 68)\<close> and to \<open>(2 ^ 68, 2 ^ 67)\<close>, all coordinates finite. For every pair the
  two products of the denominator overflow, the denominator is NaN, no test rejects the
  pair, and the point is \<open>(NaN, NaN)\<close>. \<open>operator==\<close> is false on NaN, so the aggregator
  stores this point twice in each of the three sequences.
\<close>

theorem aggregated_points_repeat_nan:
  "calc_intersections
     [line_segment4 (Finite 0) (Finite 0) (Finite (2 ^ 67)) (Finite (2 ^ 67)),
      line_segment4 (Finite 0) (Finite 0) (Finite (2 ^ 67)) (Finite (2 ^ 68)),
      line_segment4 (Finite 0) (Finite 0) (Finite (2 ^ 68)) (Finite (2 ^ 67))]
     (resize [] 3 []) =
   Some
     [[\<lparr>x = NaN, y = NaN\<rparr>, \<lparr>x = NaN, y = NaN\<rparr>],
      [\<lparr>x = NaN, y = NaN\<rparr>, \<lparr>x = NaN, y = NaN\<rparr>],
      [\<lparr>x = NaN, y = NaN\<rparr>, \<lparr>x = NaN, y = NaN\<rparr>]]"
  by (simp add: run_eval)

section \<open>The enumerator emits the cycle tuples\<close>

lemma last_point_loop_tuples:
  "last_point_loop intersects i P Q ps triangles =
     triangles @ map tuple_triangle
       [(i, j, k, P, Q, R). R \<leftarrow> ps, \<not> point_eq R Q, contains_approx (intersects ! i) R]"
  by (induction ps arbitrary: triangles) (simp_all add: find_point_iff tuple_triangle_def)

lemma segment_three_loop_tuples:
  "segment_three_loop intersects n i P Q k0 triangles =
     triangles @ map tuple_triangle
       [(i, j, k, P, Q, R).
          k \<leftarrow> [k0..<nat n],
          contains_approx (intersects ! k) Q,
          R \<leftarrow> intersects ! k,
          \<not> point_eq R Q,
          contains_approx (intersects ! i) R]"
proof (induction intersects n i P Q k0 triangles rule: segment_three_loop.induct)
  case (1 intersects n i P Q k0 triangles)
  show ?case
  proof (cases "int k0 < n")
    case False
    then show ?thesis
      by (simp add: segment_three_loop.simps [of intersects n i P Q k0])
  next
    case True
    then have upt: "[k0..<nat n] = k0 # [k0 + 1..<nat n]"
      by (simp add: upt_conv_Cons)
    show ?thesis
      using True "1.IH" [OF True]
      by (simp add: segment_three_loop.simps [of intersects n i P Q k0] upt
          find_point_iff last_point_loop_tuples [where j = j and k = k0])
  qed
qed


lemma middle_point_loop_tuples:
  "middle_point_loop intersects n i P j qs triangles =
     triangles @ map tuple_triangle
       [(i, j, k, P, Q, R).
          Q \<leftarrow> qs,
          \<not> point_eq Q P,
          k \<leftarrow> [j + 1..<nat n],
          contains_approx (intersects ! k) Q,
          R \<leftarrow> intersects ! k,
          \<not> point_eq R Q,
          contains_approx (intersects ! i) R]"
  by (induction qs arbitrary: triangles)
    (simp_all add: segment_three_loop_tuples [where j = j])

lemma segment_two_loop_tuples:
  "segment_two_loop intersects n i P j0 triangles =
     triangles @ map tuple_triangle
       [(i, j, k, P, Q, R).
          j \<leftarrow> [j0..<nat (n - 1)],
          contains_approx (intersects ! j) P,
          Q \<leftarrow> intersects ! j,
          \<not> point_eq Q P,
          k \<leftarrow> [j + 1..<nat n],
          contains_approx (intersects ! k) Q,
          R \<leftarrow> intersects ! k,
          \<not> point_eq R Q,
          contains_approx (intersects ! i) R]"
proof (induction intersects n i P j0 triangles rule: segment_two_loop.induct)
  case (1 intersects n i P j0 triangles)
  show ?case
  proof (cases "int j0 < n - 1")
    case False
    then show ?thesis
      by (simp add: segment_two_loop.simps [of intersects n i P j0])
  next
    case True
    then have upt: "[j0..<nat (n - 1)] = j0 # [j0 + 1..<nat (n - 1)]"
      by (simp add: upt_conv_Cons)
    show ?thesis
      using True "1.IH" [OF True]
      by (simp add: segment_two_loop.simps [of intersects n i P j0] upt
          find_point_iff middle_point_loop_tuples)
  qed
qed

lemma start_point_loop_tuples:
  "start_point_loop intersects n i ps triangles =
     triangles @ map tuple_triangle
       [(i, j, k, P, Q, R).
          P \<leftarrow> ps,
          j \<leftarrow> [i + 1..<nat (n - 1)],
          contains_approx (intersects ! j) P,
          Q \<leftarrow> intersects ! j,
          \<not> point_eq Q P,
          k \<leftarrow> [j + 1..<nat n],
          contains_approx (intersects ! k) Q,
          R \<leftarrow> intersects ! k,
          \<not> point_eq R Q,
          contains_approx (intersects ! i) R]"
  by (induction ps arbitrary: triangles) (simp_all add: segment_two_loop_tuples)

lemma segment_one_loop_tuples:
  "segment_one_loop intersects n i0 triangles =
     triangles @ map tuple_triangle
       [(i, j, k, P, Q, R).
          i \<leftarrow> [i0..<nat (n - 2)],
          P \<leftarrow> intersects ! i,
          j \<leftarrow> [i + 1..<nat (n - 1)],
          contains_approx (intersects ! j) P,
          Q \<leftarrow> intersects ! j,
          \<not> point_eq Q P,
          k \<leftarrow> [j + 1..<nat n],
          contains_approx (intersects ! k) Q,
          R \<leftarrow> intersects ! k,
          \<not> point_eq R Q,
          contains_approx (intersects ! i) R]"
proof (induction intersects n i0 triangles rule: segment_one_loop.induct)
  case (1 intersects n i0 triangles)
  show ?case
  proof (cases "int i0 < n - 2")
    case False
    then show ?thesis
      by (simp add: segment_one_loop.simps [of intersects n i0])
  next
    case True
    then have upt: "[i0..<nat (n - 2)] = i0 # [i0 + 1..<nat (n - 2)]"
      by (simp add: upt_conv_Cons)
    show ?thesis
      using True "1.IH" [OF True]
      by (simp add: segment_one_loop.simps [of intersects n i0] upt start_point_loop_tuples)
  qed
qed

lemma calc_triangles_intersects_tuples:
  "calc_triangles_intersects intersects triangles =
     triangles @ map tuple_triangle (triangle_tuples intersects)"
proof -
  have "nat (int (length intersects) - 2) = length intersects - 2"
    and "nat (int (length intersects) - 1) = length intersects - 1"
    by simp_all
  then show ?thesis
    by (simp add: calc_triangles_intersects_def segment_one_loop_tuples triangle_tuples_def
        cong: if_cong)
qed


lemma set_triangle_tuples:
  "set (triangle_tuples intersects) =
     {(i, j, k, P, Q, R).
        i < j \<and> j < k \<and> k < length intersects
      \<and> P \<in> set (intersects ! i) \<and> (\<exists>e\<in>set (intersects ! j). point_eq e P)
      \<and> Q \<in> set (intersects ! j) \<and> \<not> point_eq Q P \<and> (\<exists>e\<in>set (intersects ! k). point_eq e Q)
      \<and> R \<in> set (intersects ! k) \<and> \<not> point_eq R Q \<and> (\<exists>e\<in>set (intersects ! i). point_eq e R)}"
proof -
  have "(i, j, k, P, Q, R) \<in> set (triangle_tuples intersects) \<longleftrightarrow>
      i < j \<and> j < k \<and> k < length intersects
      \<and> P \<in> set (intersects ! i) \<and> (\<exists>e\<in>set (intersects ! j). point_eq e P)
      \<and> Q \<in> set (intersects ! j) \<and> \<not> point_eq Q P \<and> (\<exists>e\<in>set (intersects ! k). point_eq e Q)
      \<and> R \<in> set (intersects ! k) \<and> \<not> point_eq R Q \<and> (\<exists>e\<in>set (intersects ! i). point_eq e R)"
    for i j k P Q R
    by (auto simp add: triangle_tuples_def contains_approx_def)
  then show ?thesis
    by auto
qed

lemma distinct_concat_map_key:
  assumes "distinct xs"
    and "\<And>a. a \<in> set xs \<Longrightarrow> distinct (f a)"
    and "\<And>a t. a \<in> set xs \<Longrightarrow> t \<in> set (f a) \<Longrightarrow> key t = a"
  shows "distinct (concat (map f xs))"
proof (rule distinct_concat_map [OF assms(1)])
  show "distinct (f a)" if "a \<in> set xs" for a
    using that by (rule assms(2))
  show "set (f a) \<inter> set (f b) = {}" if "a \<in> set xs" "b \<in> set xs" "a \<noteq> b" for a b
    using that assms(3) [of a] assms(3) [of b] by blast
qed


lemma distinct_concat_map_if_key:
  assumes "distinct xs"
    and "\<And>a. a \<in> set xs \<Longrightarrow> distinct (f a)"
    and "\<And>a t. a \<in> set xs \<Longrightarrow> t \<in> set (f a) \<Longrightarrow> key t = a"
  shows "distinct (concat (map (\<lambda>a. if c a then f a else []) xs))"
  by (rule distinct_concat_map_key [where key = key]) (auto simp add: assms)

lemma distinct_triangle_tuples:
  assumes "\<forall>ps\<in>set intersects. distinct ps"
  shows "distinct (triangle_tuples intersects)"
proof -
  have pts: "distinct (intersects ! m)" if "m < length intersects" for m
    using assms that by simp
  have last: "distinct [(i, j, k, P, Q, R).
      R \<leftarrow> intersects ! k, \<not> point_eq R Q, contains_approx (intersects ! i) R]"
    if "k < length intersects" for i j k P Q
    by (rule distinct_concat_map_key [where key = "\<lambda>(i, j, k, P, Q, R). R"])
      (auto simp add: pts that)
  have three: "distinct [(i, j, k, P, Q, R).
      k \<leftarrow> [j + 1..<length intersects], contains_approx (intersects ! k) Q,
      R \<leftarrow> intersects ! k, \<not> point_eq R Q, contains_approx (intersects ! i) R]"
    for i j P Q
  proof (rule distinct_concat_map_if_key [where key = "\<lambda>(i, j, k, P, Q, R). k"])
    show "distinct [j + 1..<length intersects]"
      by simp
  qed (rule last, auto)
  have middle: "distinct [(i, j, k, P, Q, R).
      Q \<leftarrow> intersects ! j, \<not> point_eq Q P,
      k \<leftarrow> [j + 1..<length intersects], contains_approx (intersects ! k) Q,
      R \<leftarrow> intersects ! k, \<not> point_eq R Q, contains_approx (intersects ! i) R]"
    if "j < length intersects" for i j P
  proof (rule distinct_concat_map_if_key [where key = "\<lambda>(i, j, k, P, Q, R). Q"])
    show "distinct (intersects ! j)"
      using that by (rule pts)
  qed (rule three, auto)
  have two: "distinct [(i, j, k, P, Q, R).
      j \<leftarrow> [i + 1..<length intersects - 1], contains_approx (intersects ! j) P,
      Q \<leftarrow> intersects ! j, \<not> point_eq Q P,
      k \<leftarrow> [j + 1..<length intersects], contains_approx (intersects ! k) Q,
      R \<leftarrow> intersects ! k, \<not> point_eq R Q, contains_approx (intersects ! i) R]"
    for i P
  proof (rule distinct_concat_map_if_key [where key = "\<lambda>(i, j, k, P, Q, R). j"])
    show "distinct [i + 1..<length intersects - 1]"
      by simp
  qed (rule middle, auto)
  have start: "distinct [(i, j, k, P, Q, R).
      P \<leftarrow> intersects ! i,
      j \<leftarrow> [i + 1..<length intersects - 1], contains_approx (intersects ! j) P,
      Q \<leftarrow> intersects ! j, \<not> point_eq Q P,
      k \<leftarrow> [j + 1..<length intersects], contains_approx (intersects ! k) Q,
      R \<leftarrow> intersects ! k, \<not> point_eq R Q, contains_approx (intersects ! i) R]"
    if "i < length intersects" for i
  proof (rule distinct_concat_map_key [where key = "\<lambda>(i, j, k, P, Q, R). P"])
    show "distinct (intersects ! i)"
      using that by (rule pts)
  qed (rule two, auto)
  show ?thesis
    unfolding triangle_tuples_def
  proof (rule distinct_concat_map_key [where key = "\<lambda>(i, j, k, P, Q, R). i"])
    show "distinct [0..<length intersects - 2]"
      by simp
  qed (rule start, auto)
qed


text \<open>
  C3. For per-segment point sequences of \<open>N\<close> segments, the enumerator appends one triangle
  \<open>(P, Q, R)\<close> for each tuple of \<open>triangle_tuples\<close>, in that order, and nothing else. The
  tuples are exactly the \<open>(i, j, k, P, Q, R)\<close> with \<open>i < j < k < N\<close> (so \<open>i\<close> is at most
  \<open>N - 3\<close>, \<open>j\<close> at most \<open>N - 2\<close> and \<open>k\<close> at most \<open>N - 1\<close>) such that \<open>P\<close> is in segment
  \<open>i\<close>'s sequence, segment \<open>j\<close>'s holds a point approximately equal to \<open>P\<close>, \<open>Q\<close> is in
  segment \<open>j\<close>'s and not approximately equal to \<open>P\<close>, segment \<open>k\<close>'s holds a point
  approximately equal to \<open>Q\<close>, \<open>R\<close> is in segment \<open>k\<close>'s and not approximately equal to
  \<open>Q\<close>, and segment \<open>i\<close>'s holds a point approximately equal to \<open>R\<close>. When the sequences
  are sets (no point stored twice in one of them), each tuple is listed once.
\<close>

theorem calc_triangles_emits_cycle_tuples:
  "calc_triangles_intersects intersects triangles =
       triangles @ map tuple_triangle (triangle_tuples intersects)
   \<and> set (triangle_tuples intersects) =
       {(i, j, k, P, Q, R).
          i < j \<and> j < k \<and> k < length intersects
        \<and> P \<in> set (intersects ! i) \<and> (\<exists>e\<in>set (intersects ! j). point_eq e P)
        \<and> Q \<in> set (intersects ! j) \<and> \<not> point_eq Q P
        \<and> (\<exists>e\<in>set (intersects ! k). point_eq e Q)
        \<and> R \<in> set (intersects ! k) \<and> \<not> point_eq R Q
        \<and> (\<exists>e\<in>set (intersects ! i). point_eq e R)}
   \<and> ((\<forall>ps\<in>set intersects. distinct ps) \<longrightarrow> distinct (triangle_tuples intersects))"
  by (simp add: calc_triangles_intersects_tuples set_triangle_tuples distinct_triangle_tuples)

theorem calc_triangles_emits_cycle_tuples_witness:
  "calc_triangles_intersects
     [[\<lparr>x = Finite 0, y = Finite 0\<rparr>, \<lparr>x = Finite 4, y = Finite 0\<rparr>],
      [\<lparr>x = Finite 0, y = Finite 0\<rparr>, \<lparr>x = Finite 0, y = Finite 4\<rparr>],
      [\<lparr>x = Finite 4, y = Finite 0\<rparr>, \<lparr>x = Finite 0, y = Finite 4\<rparr>]] [] =
     [\<lparr>p1 = \<lparr>x = Finite 0, y = Finite 0\<rparr>, p2 = \<lparr>x = Finite 0, y = Finite 4\<rparr>, p3 = \<lparr>x = Finite 4, y = Finite 0\<rparr>\<rparr>]
   \<and> distinct (triangle_tuples
     [[\<lparr>x = Finite 0, y = Finite 0\<rparr>, \<lparr>x = Finite 4, y = Finite 0\<rparr>],
      [\<lparr>x = Finite 0, y = Finite 0\<rparr>, \<lparr>x = Finite 0, y = Finite 4\<rparr>],
      [\<lparr>x = Finite 4, y = Finite 0\<rparr>, \<lparr>x = Finite 0, y = Finite 4\<rparr>]])"
proof -
  let ?I = "[[\<lparr>x = Finite 0, y = Finite 0\<rparr>, \<lparr>x = Finite 4, y = Finite 0\<rparr>],
      [\<lparr>x = Finite 0, y = Finite 0\<rparr>, \<lparr>x = Finite 0, y = Finite 4\<rparr>],
      [\<lparr>x = Finite 4, y = Finite 0\<rparr>, \<lparr>x = Finite 0, y = Finite 4\<rparr>]]"
  have d: "\<forall>ps\<in>set ?I. distinct ps"
    by simp
  have t: "triangle_tuples ?I =
      [(0, 1, 2, \<lparr>x = Finite 0, y = Finite 0\<rparr>, \<lparr>x = Finite 0, y = Finite 4\<rparr>, \<lparr>x = Finite 4, y = Finite 0\<rparr>)]"
    by (simp add: triangle_tuples_def contains_approx_def point_eq_def upt_conv_Cons float_eval)
  from calc_triangles_emits_cycle_tuples [of ?I "[]"] d t show ?thesis
    by (simp add: tuple_triangle_def)
qed

text \<open>
  C1, as the code has it. Every triangle \<open>(P, Q, R)\<close> the enumerator appends comes from
  three segments \<open>i < j < k\<close>: \<open>P\<close> is stored for segment \<open>i\<close> and lies within tolerance of a
  point stored for segment \<open>j\<close>; \<open>Q\<close> is stored for segment \<open>j\<close> and lies within tolerance of
  a point stored for segment \<open>k\<close>; \<open>R\<close> is stored for segment \<open>k\<close> and lies within tolerance
  of a point stored for segment \<open>i\<close>; \<open>P\<close> and \<open>Q\<close> are not approximately equal, and neither
  are \<open>Q\<close> and \<open>R\<close>. So each vertex lies on two of the three segments; that it lies on
  those two only is not part of the statement, and \<open>P\<close> is not compared with \<open>R\<close>.
\<close>

theorem emitted_triangle_cycle:
  assumes "calc_triangles_intersects intersects triangles = triangles @ new"
    and "T \<in> set new"
  shows "\<exists>i j k. i < j \<and> j < k \<and> k < length intersects
     \<and> p1 T \<in> set (intersects ! i) \<and> (\<exists>e\<in>set (intersects ! j). point_eq e (p1 T))
     \<and> p2 T \<in> set (intersects ! j) \<and> (\<exists>e\<in>set (intersects ! k). point_eq e (p2 T))
     \<and> p3 T \<in> set (intersects ! k) \<and> (\<exists>e\<in>set (intersects ! i). point_eq e (p3 T))
     \<and> \<not> point_eq (p1 T) (p2 T) \<and> \<not> point_eq (p2 T) (p3 T)"
proof -
  from assms(1) have "new = map tuple_triangle (triangle_tuples intersects)"
    by (simp add: calc_triangles_intersects_tuples)
  with assms(2) obtain tup where tup: "tup \<in> set (triangle_tuples intersects)"
    and T: "T = tuple_triangle tup"
    by auto
  obtain i j k P Q R where "tup = (i, j, k, P, Q, R)"
    by (cases tup)
  with tup T show ?thesis
    unfolding set_triangle_tuples
    by (auto simp add: tuple_triangle_def point_eq_sym [of Q P] point_eq_sym [of R Q])
qed


theorem emitted_triangle_cycle_witness:
  "\<exists>i j k. i < j \<and> j < k
     \<and> k < length [[\<lparr>x = Finite 0, y = Finite 0\<rparr>, \<lparr>x = Finite 4, y = Finite 0\<rparr>],
      [\<lparr>x = Finite 0, y = Finite 0\<rparr>, \<lparr>x = Finite 0, y = Finite 4\<rparr>],
      [\<lparr>x = Finite 4, y = Finite 0\<rparr>, \<lparr>x = Finite 0, y = Finite 4\<rparr>]]
     \<and> \<lparr>x = Finite 0, y = Finite 0\<rparr> \<in> set ([[\<lparr>x = Finite 0, y = Finite 0\<rparr>, \<lparr>x = Finite 4, y = Finite 0\<rparr>],
      [\<lparr>x = Finite 0, y = Finite 0\<rparr>, \<lparr>x = Finite 0, y = Finite 4\<rparr>],
      [\<lparr>x = Finite 4, y = Finite 0\<rparr>, \<lparr>x = Finite 0, y = Finite 4\<rparr>]] ! i)
     \<and> \<lparr>x = Finite 0, y = Finite 4\<rparr> \<in> set ([[\<lparr>x = Finite 0, y = Finite 0\<rparr>, \<lparr>x = Finite 4, y = Finite 0\<rparr>],
      [\<lparr>x = Finite 0, y = Finite 0\<rparr>, \<lparr>x = Finite 0, y = Finite 4\<rparr>],
      [\<lparr>x = Finite 4, y = Finite 0\<rparr>, \<lparr>x = Finite 0, y = Finite 4\<rparr>]] ! j)
     \<and> \<lparr>x = Finite 4, y = Finite 0\<rparr> \<in> set ([[\<lparr>x = Finite 0, y = Finite 0\<rparr>, \<lparr>x = Finite 4, y = Finite 0\<rparr>],
      [\<lparr>x = Finite 0, y = Finite 0\<rparr>, \<lparr>x = Finite 0, y = Finite 4\<rparr>],
      [\<lparr>x = Finite 4, y = Finite 0\<rparr>, \<lparr>x = Finite 0, y = Finite 4\<rparr>]] ! k)"
proof -
  let ?I = "[[\<lparr>x = Finite 0, y = Finite 0\<rparr>, \<lparr>x = Finite 4, y = Finite 0\<rparr>],
      [\<lparr>x = Finite 0, y = Finite 0\<rparr>, \<lparr>x = Finite 0, y = Finite 4\<rparr>],
      [\<lparr>x = Finite 4, y = Finite 0\<rparr>, \<lparr>x = Finite 0, y = Finite 4\<rparr>]]"
  let ?T = "\<lparr>p1 = \<lparr>x = Finite 0, y = Finite 0\<rparr>, p2 = \<lparr>x = Finite 0, y = Finite 4\<rparr>, p3 = \<lparr>x = Finite 4, y = Finite 0\<rparr>\<rparr>"
  have "calc_triangles_intersects ?I [] = [?T]"
    by (simp add: run_eval)
  then have e: "calc_triangles_intersects ?I [] = [] @ [?T]"
    by simp
  have m: "?T \<in> set [?T]"
    by simp
  from emitted_triangle_cycle [OF e m] show ?thesis
    by auto
qed

text \<open>
  The claim C1 as it is written fails on four segments: a vertical one through \<open>(1, 0)\<close>,
  two overlapping ones on the line \<open>y = 0\<close>, and a vertical one through \<open>(3, 0)\<close>. The
  aggregator stores \<open>(1, 0)\<close> for the first three segments, and the enumerator emits one
  triangle, for the segments 0, 1 and 2, whose first and third vertex are the same point
  \<open>(1, 0)\<close>, a point stored for all three segments.
\<close>

theorem emitted_triangle_repeats_vertex:
  "calc_intersections
     [line_segment4 (Finite 1) (Finite (- 1)) (Finite 1) (Finite 1),
      line_segment4 (Finite 0) (Finite 0) (Finite 4) (Finite 0),
      line_segment4 (Finite (- 1)) (Finite 0) (Finite 5) (Finite 0),
      line_segment4 (Finite 3) (Finite (- 1)) (Finite 3) (Finite 1)]
     (resize [] 4 []) =
     Some [[\<lparr>x = Finite 1, y = Finite 0\<rparr>],
      [\<lparr>x = Finite 1, y = Finite 0\<rparr>, \<lparr>x = Finite 3, y = Finite 0\<rparr>],
      [\<lparr>x = Finite 1, y = Finite 0\<rparr>, \<lparr>x = Finite 3, y = Finite 0\<rparr>],
      [\<lparr>x = Finite 3, y = Finite 0\<rparr>]]
   \<and> triangle_tuples
       [[\<lparr>x = Finite 1, y = Finite 0\<rparr>],
      [\<lparr>x = Finite 1, y = Finite 0\<rparr>, \<lparr>x = Finite 3, y = Finite 0\<rparr>],
      [\<lparr>x = Finite 1, y = Finite 0\<rparr>, \<lparr>x = Finite 3, y = Finite 0\<rparr>],
      [\<lparr>x = Finite 3, y = Finite 0\<rparr>]] =
       [(0, 1, 2, \<lparr>x = Finite 1, y = Finite 0\<rparr>, \<lparr>x = Finite 3, y = Finite 0\<rparr>, \<lparr>x = Finite 1, y = Finite 0\<rparr>)]
   \<and> calc_triangles_intersects
       [[\<lparr>x = Finite 1, y = Finite 0\<rparr>],
      [\<lparr>x = Finite 1, y = Finite 0\<rparr>, \<lparr>x = Finite 3, y = Finite 0\<rparr>],
      [\<lparr>x = Finite 1, y = Finite 0\<rparr>, \<lparr>x = Finite 3, y = Finite 0\<rparr>],
      [\<lparr>x = Finite 3, y = Finite 0\<rparr>]] [] =
       [\<lparr>p1 = \<lparr>x = Finite 1, y = Finite 0\<rparr>, p2 = \<lparr>x = Finite 3, y = Finite 0\<rparr>, p3 = \<lparr>x = Finite 1, y = Finite 0\<rparr>\<rparr>]
   \<and> point_eq \<lparr>x = Finite 1, y = Finite 0\<rparr> \<lparr>x = Finite 1, y = Finite 0\<rparr>"
proof -
  let ?I = "[[\<lparr>x = Finite 1, y = Finite 0\<rparr>],
      [\<lparr>x = Finite 1, y = Finite 0\<rparr>, \<lparr>x = Finite 3, y = Finite 0\<rparr>],
      [\<lparr>x = Finite 1, y = Finite 0\<rparr>, \<lparr>x = Finite 3, y = Finite 0\<rparr>],
      [\<lparr>x = Finite 3, y = Finite 0\<rparr>]]"
  have "calc_intersections
     [line_segment4 (Finite 1) (Finite (- 1)) (Finite 1) (Finite 1),
      line_segment4 (Finite 0) (Finite 0) (Finite 4) (Finite 0),
      line_segment4 (Finite (- 1)) (Finite 0) (Finite 5) (Finite 0),
      line_segment4 (Finite 3) (Finite (- 1)) (Finite 3) (Finite 1)]
     (resize [] 4 []) = Some ?I"
    by (simp add: run_eval)
  moreover have "triangle_tuples ?I =
      [(0, 1, 2, \<lparr>x = Finite 1, y = Finite 0\<rparr>, \<lparr>x = Finite 3, y = Finite 0\<rparr>, \<lparr>x = Finite 1, y = Finite 0\<rparr>)]"
    by (simp add: triangle_tuples_def contains_approx_def point_eq_def upt_conv_Cons float_eval)
  moreover have "calc_triangles_intersects ?I [] =
      [\<lparr>p1 = \<lparr>x = Finite 1, y = Finite 0\<rparr>, p2 = \<lparr>x = Finite 3, y = Finite 0\<rparr>, p3 = \<lparr>x = Finite 1, y = Finite 0\<rparr>\<rparr>]"
    by (simp add: run_eval)
  moreover have "point_eq \<lparr>x = Finite 1, y = Finite 0\<rparr> \<lparr>x = Finite 1, y = Finite 0\<rparr>"
    by (simp add: point_eq_def float_eval)
  ultimately show ?thesis
    by blast
qed

section \<open>The whole pipeline\<close>

lemma calc_triangles_eq:
  "calc_triangles segments triangles =
     Some (triangles @ map tuple_triangle (triangle_tuples
             (foldl (record_pair segments) (replicate (length segments) [])
                (index_pairs (length segments)))),
           int (length triangles) + int (length (triangle_tuples
             (foldl (record_pair segments) (replicate (length segments) [])
                (index_pairs (length segments))))))"
  by (simp add: calc_triangles_def resize_Nil calc_intersections_foldl
      calc_triangles_intersects_tuples Let_def)

lemma triangle_tuples_short: "length intersects < 3 \<Longrightarrow> triangle_tuples intersects = []"
  by (simp add: triangle_tuples_def)

text \<open>
  The top-level function sizes \<open>intersects\<close> to the segments before aggregating, so no
  index of the aggregator is out of range: it always returns.
\<close>

theorem calc_triangles_defined: "calc_triangles segments triangles \<noteq> None"
  by (simp add: calc_triangles_eq)

text \<open>
  C8. With fewer than three segments (none, one or two) the whole pipeline produces no
  triangle: the vector \<open>triangles\<close> is returned as it was, and from an empty vector the
  result is empty and the count is zero. Two crossing segments are an instance.
\<close>

theorem calc_triangles_few_segments:
  "length segments < 3 \<Longrightarrow> calc_triangles segments triangles = Some (triangles, int (length triangles))"
  by (simp add: calc_triangles_eq triangle_tuples_short)

theorem calc_triangles_few_segments_witness:
  "calc_triangles
     [line_segment4 (Finite 0) (Finite 0) (Finite 2) (Finite 2), line_segment4 (Finite 0) (Finite 2) (Finite 2) (Finite 0)] [] = Some ([], 0)"
  using calc_triangles_few_segments
    [of "[line_segment4 (Finite 0) (Finite 0) (Finite 2) (Finite 2), line_segment4 (Finite 0) (Finite 2) (Finite 2) (Finite 0)]" "[]"]
  by simp

text \<open>
  C10. The top-level \<open>calc_triangles\<close> does not clear the caller's vector: the triangles
  found in this call (those it finds from an empty vector) are appended after the elements
  already there, and the integer it returns is the length of the whole vector, the old
  elements included.
\<close>

theorem calc_triangles_appends_and_counts_all:
  "\<exists>new. calc_triangles segments [] = Some (new, int (length new))
     \<and> calc_triangles segments triangles =
         Some (triangles @ new, int (length triangles) + int (length new))"
  by (simp add: calc_triangles_eq)

theorem calc_triangles_appends_and_counts_all_witness:
  "calc_triangles
     [line_segment4 (Finite 0) (Finite 0) (Finite 4) (Finite 0),
      line_segment4 (Finite 0) (Finite 0) (Finite 0) (Finite 4),
      line_segment4 (Finite 4) (Finite 0) (Finite 0) (Finite 4)]
     [\<lparr>p1 = \<lparr>x = Finite 9, y = Finite 9\<rparr>, p2 = \<lparr>x = Finite 8, y = Finite 8\<rparr>, p3 = \<lparr>x = Finite 7, y = Finite 7\<rparr>\<rparr>] =
   Some ([\<lparr>p1 = \<lparr>x = Finite 9, y = Finite 9\<rparr>, p2 = \<lparr>x = Finite 8, y = Finite 8\<rparr>, p3 = \<lparr>x = Finite 7, y = Finite 7\<rparr>\<rparr>,
          \<lparr>p1 = \<lparr>x = Finite 0, y = Finite 0\<rparr>, p2 = \<lparr>x = Finite 0, y = Finite 4\<rparr>, p3 = \<lparr>x = Finite 4, y = Finite 0\<rparr>\<rparr>], 2)"
proof -
  let ?S = "[line_segment4 (Finite 0) (Finite 0) (Finite 4) (Finite 0),
      line_segment4 (Finite 0) (Finite 0) (Finite 0) (Finite 4),
      line_segment4 (Finite 4) (Finite 0) (Finite 0) (Finite 4)]"
  let ?old = "[\<lparr>p1 = \<lparr>x = Finite 9, y = Finite 9\<rparr>, p2 = \<lparr>x = Finite 8, y = Finite 8\<rparr>, p3 = \<lparr>x = Finite 7, y = Finite 7\<rparr>\<rparr>]"
  from calc_triangles_appends_and_counts_all [of ?S ?old]
  obtain new where empty: "calc_triangles ?S [] = Some (new, int (length new))"
    and old: "calc_triangles ?S ?old = Some (?old @ new, int (length ?old) + int (length new))"
    by blast
  have "calc_triangles ?S [] =
      Some ([\<lparr>p1 = \<lparr>x = Finite 0, y = Finite 0\<rparr>, p2 = \<lparr>x = Finite 0, y = Finite 4\<rparr>, p3 = \<lparr>x = Finite 4, y = Finite 0\<rparr>\<rparr>], 1)"
    by (simp add: run_eval)
  with empty have "new = [\<lparr>p1 = \<lparr>x = Finite 0, y = Finite 0\<rparr>, p2 = \<lparr>x = Finite 0, y = Finite 4\<rparr>, p3 = \<lparr>x = Finite 4, y = Finite 0\<rparr>\<rparr>]"
    by simp
  with old show ?thesis
    by simp
qed

end
